theory Spec2Isabelle
  imports Complex_Main "HOL-Library.Log_Nat" "HOL-Library.Multiset"
begin

section \<open>Python values used by generate\_scores.py\<close>

text \<open>
  The exceptions the two core functions can meet. \<open>ValueError\<close>, \<open>KeyError\<close> and
  \<open>TypeError\<close> are the ones the \<^verbatim>\<open>try\<close> block of \<^verbatim>\<open>engineer_features\<close> catches.
\<close>

datatype error = KeyError | ValueError | TypeError | OverflowError | ZeroDivisionError

subsection \<open>Binary64 floats\<close>

text \<open>
  A Python \<^verbatim>\<open>float\<close> is an IEEE-754 binary64 number: a finite value (a rational), one of
  the two infinities, or NaN. The sign of zero is not modelled: division by zero raises in
  Python before the sign could be observed, and no other operation of the program
  distinguishes the two zeros.
\<close>

datatype pyfloat = Fin rat | PInf | NInf | NaN

text \<open>Round to the nearest integer, ties to the even one.\<close>

definition round_half_even :: "rat \<Rightarrow> int" where
  "round_half_even q =
     (let f = \<lfloor>q\<rfloor>; d = q - of_int f
      in if d < 1 / 2 then f else if 1 / 2 < d then f + 1 else if even f then f else f + 1)"

text \<open>
  The binary exponent \<open>e\<close> of a non-zero rational: \<open>2 powi e \<le> \<bar>x\<bar> < 2 powi (e + 1)\<close>
  (lemma \<open>float_exponent_unique\<close> below).
\<close>

definition float_exponent :: "rat \<Rightarrow> int" where
  "float_exponent x =
     (let (p, q) = quotient_of x; d = bitlen \<bar>p\<bar> - bitlen q
      in if 2 powi d \<le> \<bar>x\<bar> then d else d - 1)"

text \<open>
  Rounding of an exact result to binary64, round-to-nearest-even: 53 significant bits for
  normal numbers, the fixed spacing \<open>2 powi (- 1074)\<close> below \<open>2 powi (- 1022)\<close>, and
  overflow to an infinity when the rounded value reaches \<open>2 ^ 1024\<close>.
\<close>

definition rnd :: "rat \<Rightarrow> pyfloat" where
  "rnd x =
     (if x = 0 then Fin 0
      else let ulp = 2 powi (max (float_exponent x) (- 1022) - 52);
               r = of_int (round_half_even (x / ulp)) * ulp
           in if 2 ^ 1024 \<le> r then PInf else if r \<le> - (2 ^ 1024) then NInf else Fin r)"

text \<open>The sign of a float that is not NaN.\<close>

fun fsign :: "pyfloat \<Rightarrow> int" where
  "fsign (Fin a) = (if a < 0 then - 1 else if a = 0 then 0 else 1)"
| "fsign PInf = 1"
| "fsign NInf = - 1"
| "fsign NaN = 0"

text \<open>\<^verbatim>\<open>x + y\<close> on floats.\<close>

fun fadd :: "pyfloat \<Rightarrow> pyfloat \<Rightarrow> pyfloat" where
  "fadd (Fin a) (Fin b) = rnd (a + b)"
| "fadd NaN _ = NaN"
| "fadd _ NaN = NaN"
| "fadd PInf NInf = NaN"
| "fadd NInf PInf = NaN"
| "fadd PInf _ = PInf"
| "fadd _ PInf = PInf"
| "fadd NInf _ = NInf"
| "fadd _ NInf = NInf"

text \<open>\<^verbatim>\<open>x * y\<close> on floats: an infinity times zero is NaN.\<close>

fun fmul :: "pyfloat \<Rightarrow> pyfloat \<Rightarrow> pyfloat" where
  "fmul (Fin a) (Fin b) = rnd (a * b)"
| "fmul NaN _ = NaN"
| "fmul _ NaN = NaN"
| "fmul x y =
     (if fsign x * fsign y = 0 then NaN else if 0 < fsign x * fsign y then PInf else NInf)"

text \<open>\<^verbatim>\<open>x - y\<close> on floats (NumPy arithmetic on the per-cluster means).\<close>

fun fsub :: "pyfloat \<Rightarrow> pyfloat \<Rightarrow> pyfloat" where
  "fsub (Fin a) (Fin b) = rnd (a - b)"
| "fsub NaN _ = NaN"
| "fsub _ NaN = NaN"
| "fsub PInf PInf = NaN"
| "fsub NInf NInf = NaN"
| "fsub PInf _ = PInf"
| "fsub _ NInf = PInf"
| "fsub NInf _ = NInf"
| "fsub _ PInf = NInf"

text \<open>
  \<^verbatim>\<open>x / y\<close> on Python floats: a zero divisor raises \<^verbatim>\<open>ZeroDivisionError\<close> whatever
  the dividend is.
\<close>

fun fdiv :: "pyfloat \<Rightarrow> pyfloat \<Rightarrow> error + pyfloat" where
  "fdiv x (Fin b) =
     (if b = 0 then Inl ZeroDivisionError
      else Inr (case x of
                  Fin a \<Rightarrow> rnd (a / b)
                | NaN \<Rightarrow> NaN
                | _ \<Rightarrow> if 0 < fsign x * fsign (Fin b) then PInf else NInf))"
| "fdiv NaN _ = Inr NaN"
| "fdiv _ NaN = Inr NaN"
| "fdiv (Fin a) _ = Inr (Fin 0)"
| "fdiv _ _ = Inr NaN"

text \<open>
  \<^verbatim>\<open>a / b\<close> on Python ints (true division): the correctly rounded quotient;
  \<^verbatim>\<open>OverflowError\<close> when it does not fit a float.
\<close>

definition py_int_truediv :: "int \<Rightarrow> int \<Rightarrow> error + pyfloat" where
  "py_int_truediv a b =
     (if b = 0 then Inl ZeroDivisionError
      else case rnd (of_int a / of_int b) of
             Fin r \<Rightarrow> Inr (Fin r)
           | _ \<Rightarrow> Inl OverflowError)"

text \<open>\<^verbatim>\<open>x < y\<close> on floats: every comparison with NaN is false.\<close>

fun flt :: "pyfloat \<Rightarrow> pyfloat \<Rightarrow> bool" where
  "flt (Fin a) (Fin b) = (a < b)"
| "flt NaN _ = False"
| "flt _ NaN = False"
| "flt _ NInf = False"
| "flt PInf _ = False"
| "flt NInf _ = True"
| "flt _ PInf = True"

definition is_finite :: "pyfloat \<Rightarrow> bool" where
  "is_finite x = (case x of Fin _ \<Rightarrow> True | _ \<Rightarrow> False)"

subsection \<open>Strings and JSON scalars\<close>

text \<open>
  \<^verbatim>\<open>str.lower\<close>, on ASCII text (a \<open>string\<close> is a list of bytes): the letters
  \<open>A\<close> to \<open>Z\<close>, codes 65 to 90, get the bit of value 32 set.
\<close>

definition lower_char :: "char \<Rightarrow> char" where
  "lower_char c =
     (let n = (of_char c :: nat)
      in if 65 \<le> n \<and> n \<le> 90
         then (case c of Char b0 b1 b2 b3 b4 b5 b6 b7 \<Rightarrow> Char b0 b1 b2 b3 b4 True b6 b7)
         else c)"

definition lower :: "string \<Rightarrow> string" where
  "lower s = map lower_char s"

text \<open>
  What the \<^verbatim>\<open>amount\<close> and \<^verbatim>\<open>assetPriceUSD\<close> fields of a decoded JSON record can hold:
  \<^verbatim>\<open>null\<close>, an integer, a float or a string.
\<close>

datatype pyval = PNone | PInt int | PFloat pyfloat | PStr string

text \<open>
  The builtin \<^verbatim>\<open>float(v)\<close>. The interpreter's conversion of a string to a float is the
  parameter \<open>str2f\<close> (\<open>None\<close> where Python raises \<^verbatim>\<open>ValueError\<close>). An integer is
  rounded to the nearest float and raises \<^verbatim>\<open>OverflowError\<close> when it is too large.
\<close>

definition py_float :: "(string \<Rightarrow> pyfloat option) \<Rightarrow> pyval \<Rightarrow> error + pyfloat" where
  "py_float str2f v =
     (case v of
        PNone \<Rightarrow> Inl TypeError
      | PInt n \<Rightarrow> (case rnd (of_int n) of Fin r \<Rightarrow> Inr (Fin r) | _ \<Rightarrow> Inl OverflowError)
      | PFloat f \<Rightarrow> Inr f
      | PStr s \<Rightarrow> (case str2f s of None \<Rightarrow> Inl ValueError | Some f \<Rightarrow> Inr f))"

text \<open>Sequencing of computations that may raise.\<close>

definition bind_err :: "error + 'a \<Rightarrow> ('a \<Rightarrow> error + 'b) \<Rightarrow> error + 'b" where
  "bind_err m f = (case m of Inl e \<Rightarrow> Inl e | Inr v \<Rightarrow> f v)"

section \<open>Data model\<close>

text \<open>
  A transaction record as \<^verbatim>\<open>json.load\<close> delivers it. A field is \<open>None\<close> when its key is
  absent from the dictionary. The wallet and the action are strings and the timestamp is an
  integer (seconds since the epoch).
\<close>

record action_data =
  amount :: "pyval option"
  assetPriceUSD :: "pyval option"

record tx =
  userWallet :: "string option"
  action :: "string option"
  timestamp :: "int option"
  actionData :: "action_data option"

text \<open>
  One entry of \<^verbatim>\<open>wallet_stats\<close>, a \<^verbatim>\<open>defaultdict(float)\<close>: a missing key reads as 0.
  The keys \<^verbatim>\<open>total_tx\<close> and \<^verbatim>\<open>num_<action>\<close> hold counters and the keys
  \<^verbatim>\<open>total_usd_all_actions\<close> and \<^verbatim>\<open>total_usd_<action>\<close> hold sums of USD values; a key of
  one kind is never a key of the other, so the dictionary is kept as two maps on the same
  key strings. A counter is a float that holds a whole number; it is exact up to \<open>2 ^ 53\<close>
  increments and is modelled as a natural number. The key \<^verbatim>\<open>actions_set\<close> holds a set.
\<close>

record stats =
  counters :: "string \<Rightarrow> nat"
  usd_totals :: "string \<Rightarrow> pyfloat"
  actions_set :: "string set"

definition new_stats :: stats where
  "new_stats = \<lparr>counters = (\<lambda>_. 0), usd_totals = (\<lambda>_. Fin 0), actions_set = {}\<rparr>"

text \<open>
  The two dictionaries the scan builds. Python dictionaries keep insertion order, and the
  rows of the feature table come out in that order: association lists.
\<close>

record acc =
  wallet_stats :: "(string \<times> stats) list"
  wallet_timestamps :: "(string \<times> int list) list"

text \<open>Both dictionaries are empty before the scan.\<close>

definition empty_acc :: acc where
  "empty_acc = \<lparr>wallet_stats = [], wallet_timestamps = []\<rparr>"

text \<open>
  \<^verbatim>\<open>d[k] = f(d[k])\<close> on a \<^verbatim>\<open>defaultdict\<close> with default \<open>dflt\<close>: an existing entry is
  updated in place, a new key is appended.
\<close>

fun dict_upd :: "'k \<Rightarrow> 'v \<Rightarrow> ('v \<Rightarrow> 'v) \<Rightarrow> ('k \<times> 'v) list \<Rightarrow> ('k \<times> 'v) list" where
  "dict_upd k dflt f [] = [(k, f dflt)]"
| "dict_upd k dflt f ((k', v) # kvs) =
     (if k' = k then (k', f v) # kvs else (k', v) # dict_upd k dflt f kvs)"

text \<open>One row of the feature table.\<close>

record features =
  total_tx :: nat
  total_usd_all_actions :: pyfloat
  repay_borrow_ratio_count :: pyfloat
  num_liquidations :: nat
  liquidation_ratio :: pyfloat
  active_days :: pyfloat
  avg_time_between_tx_days :: pyfloat

text \<open>
  A data frame indexed by wallet: the feature rows and, once the scorer has added them, the
  columns \<^verbatim>\<open>cluster\<close> and \<^verbatim>\<open>credit_score\<close>.
\<close>

record dataframe =
  index_rows :: "(string \<times> features) list"
  cluster :: "nat list option"
  credit_score :: "int list option"

definition empty_frame :: dataframe where
  "empty_frame = \<lparr>index_rows = [], cluster = None, credit_score = None\<rparr>"

section \<open>engineer\_features\<close>

text \<open>
  The body of the \<^verbatim>\<open>try\<close> block: the amount divided by \<open>1e6\<close>, times the price, which
  defaults to 1.0.
\<close>

definition usd_value :: "(string \<Rightarrow> pyfloat option) \<Rightarrow> tx \<Rightarrow> error + pyfloat" where
  "usd_value str2f t =
     (case actionData t of
        None \<Rightarrow> Inl KeyError
      | Some d \<Rightarrow>
          (case amount d of
             None \<Rightarrow> Inl KeyError
           | Some a \<Rightarrow>
               bind_err (py_float str2f a) (\<lambda>fa.
               bind_err (fdiv fa (Fin 1000000)) (\<lambda>amt.
               bind_err (py_float str2f
                           (case assetPriceUSD d of None \<Rightarrow> PFloat (Fin 1) | Some p \<Rightarrow> p)) (\<lambda>price.
               Inr (fmul amt price))))))"

text \<open>The four accumulations and the update of \<^verbatim>\<open>actions_set\<close> for one valid record.\<close>

definition accumulate :: "string \<Rightarrow> pyfloat \<Rightarrow> stats \<Rightarrow> stats" where
  "accumulate a v s =
     (let c1 = (counters s)(''total_tx'' := counters s ''total_tx'' + 1);
          u1 = (usd_totals s)
                 (''total_usd_all_actions'' := fadd (usd_totals s ''total_usd_all_actions'') v);
          c2 = c1(''num_'' @ a := c1 (''num_'' @ a) + 1);
          u2 = u1(''total_usd_'' @ a := fadd (u1 (''total_usd_'' @ a)) v)
      in \<lparr>counters = c2, usd_totals = u2, actions_set = insert a (actions_set s)\<rparr>)"

text \<open>
  The body of the \<^verbatim>\<open>for tx in raw_data\<close> loop. \<^verbatim>\<open>all([wallet, action, timestamp])\<close>
  tests truthiness: \<^verbatim>\<open>None\<close>, the empty string and the integer 0 are false. An exception
  of the \<^verbatim>\<open>try\<close> block other than the three caught ones leaves the function.
\<close>

definition process_tx :: "(string \<Rightarrow> pyfloat option) \<Rightarrow> acc \<Rightarrow> tx \<Rightarrow> error + acc" where
  "process_tx str2f st t =
     (let act = lower (case action t of None \<Rightarrow> [] | Some a \<Rightarrow> a)
      in case (userWallet t, timestamp t) of
           (Some wallet, Some ts) \<Rightarrow>
             if wallet = [] \<or> act = [] \<or> ts = 0 then Inr st
             else (case usd_value str2f t of
                     Inl e \<Rightarrow> if e \<in> {ValueError, KeyError, TypeError} then Inr st else Inl e
                   | Inr v \<Rightarrow>
                       Inr \<lparr>wallet_stats =
                              dict_upd wallet new_stats (accumulate act v) (wallet_stats st),
                            wallet_timestamps =
                              dict_upd wallet [] (\<lambda>l. l @ [ts]) (wallet_timestamps st)\<rparr>)
         | _ \<Rightarrow> Inr st)"

fun scan :: "(string \<Rightarrow> pyfloat option) \<Rightarrow> acc \<Rightarrow> tx list \<Rightarrow> error + acc" where
  "scan str2f st [] = Inr st"
| "scan str2f st (t # ts) =
     (case process_tx str2f st t of Inl e \<Rightarrow> Inl e | Inr st' \<Rightarrow> scan str2f st' ts)"

text \<open>
  The body of the \<^verbatim>\<open>for wallet, stats in wallet_stats.items()\<close> loop. The list indexing
  \<^verbatim>\<open>timestamps[-1]\<close> and \<^verbatim>\<open>timestamps[0]\<close> is guarded by \<^verbatim>\<open>len(timestamps) > 1\<close>.
\<close>

definition wallet_features ::
  "(string \<times> int list) list \<Rightarrow> string \<Rightarrow> stats \<Rightarrow> error + features" where
  "wallet_features wts wallet s =
     (let total = counters s ''total_tx'';
          num_borrows = counters s ''num_borrow'';
          timestamps = sort (case map_of wts wallet of None \<Rightarrow> [0] | Some l \<Rightarrow> l)
      in bind_err (if 0 < num_borrows
                   then fdiv (Fin (of_nat (counters s ''num_repay''))) (Fin (of_nat num_borrows))
                   else Inr (Fin 1)) (\<lambda>ratio.
         bind_err (if 0 < total
                   then fdiv (Fin (of_nat (counters s ''num_liquidationcall''))) (Fin (of_nat total))
                   else Inr (Fin 0)) (\<lambda>liq.
         bind_err (if 1 < length timestamps
                   then py_int_truediv (last timestamps - hd timestamps) 86400
                   else Inr (Fin 0)) (\<lambda>days.
         bind_err (if 1 < total then fdiv days (Fin (of_nat total)) else Inr (Fin 0)) (\<lambda>avg.
         Inr \<lparr>total_tx = total,
              total_usd_all_actions = usd_totals s ''total_usd_all_actions'',
              repay_borrow_ratio_count = ratio,
              num_liquidations = counters s ''num_liquidationcall'',
              liquidation_ratio = liq,
              active_days = days,
              avg_time_between_tx_days = avg\<rparr>)))))"

fun features_list ::
  "(string \<times> int list) list \<Rightarrow> (string \<times> stats) list \<Rightarrow> error + (string \<times> features) list" where
  "features_list wts [] = Inr []"
| "features_list wts ((wallet, s) # rest) =
     bind_err (wallet_features wts wallet s) (\<lambda>f.
     bind_err (features_list wts rest) (\<lambda>fl. Inr ((wallet, f) # fl)))"

text \<open>
  \<^verbatim>\<open>engineer_features\<close>. \<^verbatim>\<open>pd.DataFrame(features_list).set_index('wallet')\<close> raises
  \<^verbatim>\<open>KeyError\<close> when the list is empty, since a frame built from an empty list has no column
  \<^verbatim>\<open>wallet\<close>. The variable \<^verbatim>\<open>latest_timestamp\<close> is computed and never used; it is left out.
\<close>

definition engineer_features :: "(string \<Rightarrow> pyfloat option) \<Rightarrow> tx list \<Rightarrow> error + dataframe" where
  "engineer_features str2f raw_data =
     (if raw_data = [] then Inr empty_frame
      else bind_err (scan str2f empty_acc raw_data) (\<lambda>st.
           bind_err (features_list (wallet_timestamps st) (wallet_stats st)) (\<lambda>fl.
           if fl = [] then Inl KeyError
           else Inr \<lparr>index_rows = fl, cluster = None, credit_score = None\<rparr>)))"

section \<open>generate\_credit\_scores\<close>

definition N_CLUSTERS :: nat where
  "N_CLUSTERS = 5"

definition MODEL_FEATURE_COLS :: "(features \<Rightarrow> pyfloat) list" where
  "MODEL_FEATURE_COLS =
     [repay_borrow_ratio_count, liquidation_ratio, active_days, total_usd_all_actions,
      avg_time_between_tx_days]"

text \<open>\<^verbatim>\<open>X.replace([np.inf, -np.inf], 0)\<close> and \<^verbatim>\<open>X.fillna(0)\<close>, on one cell.\<close>

definition replace_inf :: "pyfloat \<Rightarrow> pyfloat" where
  "replace_inf x = (if x = PInf \<or> x = NInf then Fin 0 else x)"

definition fillna :: "pyfloat \<Rightarrow> pyfloat" where
  "fillna x = (if x = NaN then Fin 0 else x)"

text \<open>The matrix \<^verbatim>\<open>X\<close> handed to the scaler and the clustering model.\<close>

definition model_input :: "dataframe \<Rightarrow> pyfloat list list" where
  "model_input df =
     map (\<lambda>(w, f). map (\<lambda>col. fillna (replace_inf (col f))) MODEL_FEATURE_COLS) (index_rows df)"

text \<open>
  The mean of a group of a float column, as pandas computes it: NaN cells are skipped, and a
  group without a value has mean NaN. The count of a non-empty group is positive, so the
  division cannot fail. (pandas adds the cells with a compensated sum; the statements below
  hold for every value of the means.)
\<close>

definition series_mean :: "pyfloat list \<Rightarrow> pyfloat" where
  "series_mean xs =
     (let ys = filter (\<lambda>x. x \<noteq> NaN) xs
      in if ys = [] then NaN
         else case fdiv (foldl fadd (Fin 0) ys) (Fin (of_nat (length ys))) of
                Inr m \<Rightarrow> m
              | Inl _ \<Rightarrow> NaN)"

text \<open>The cells of a column that belong to the rows labelled \<open>c\<close>.\<close>

definition group_values :: "nat list \<Rightarrow> 'a list \<Rightarrow> nat \<Rightarrow> 'a list" where
  "group_values labels col c = map snd (filter (\<lambda>(l, v). l = c) (zip labels col))"

text \<open>
  \<^verbatim>\<open>cluster_health_metric\<close>: a series indexed by the cluster labels that occur, in
  ascending order (\<^verbatim>\<open>groupby\<close> sorts its keys).
\<close>

definition cluster_health_metric :: "dataframe \<Rightarrow> nat list \<Rightarrow> (nat \<times> pyfloat) list" where
  "cluster_health_metric df labels =
     map (\<lambda>c. (c, fsub (series_mean
                          (group_values labels
                             (map (\<lambda>(w, f). repay_borrow_ratio_count f) (index_rows df)) c))
                       (fmul (series_mean
                                (group_values labels
                                   (map (\<lambda>(w, f). liquidation_ratio f) (index_rows df)) c))
                             (Fin 2))))
         (sort (remdups labels))"

text \<open>
  \<^verbatim>\<open>rank(method='dense')\<close> of the value \<open>h\<close> in a series with the values \<open>hs\<close>: one more
  than the number of distinct smaller values.
\<close>

definition rank_dense :: "pyfloat list \<Rightarrow> pyfloat \<Rightarrow> nat" where
  "rank_dense hs h = length (remdups (filter (\<lambda>h'. flt h' h) hs)) + 1"

text \<open>
  \<^verbatim>\<open>score_mapping\<close>. The rank of a NaN is NaN, on which \<^verbatim>\<open>astype(int)\<close> raises a
  \<^verbatim>\<open>ValueError\<close>.
\<close>

definition score_mapping :: "(nat \<times> pyfloat) list \<Rightarrow> error + (nat \<times> int) list" where
  "score_mapping chm =
     (if NaN \<in> snd ` set chm then Inl ValueError
      else Inr (map (\<lambda>(c, h). (c, int (rank_dense (map snd chm) h) - 1)) chm))"

text \<open>\<^verbatim>\<open>astype(int)\<close> on a float cell: truncation toward zero.\<close>

definition astype_int :: "pyfloat \<Rightarrow> error + int" where
  "astype_int x =
     (case x of Fin a \<Rightarrow> Inr (if 0 \<le> a then \<lfloor>a\<rfloor> else \<lceil>a\<rceil>) | _ \<Rightarrow> Inl ValueError)"

text \<open>
  The credit score of a row labelled \<open>l\<close>: its rank in \<^verbatim>\<open>score_mapping\<close> times the factor
  \<open>k\<close>, truncated. A label that the mapping does not have maps to NaN.
\<close>

definition score_of_label :: "(nat \<times> int) list \<Rightarrow> pyfloat \<Rightarrow> nat \<Rightarrow> error + int" where
  "score_of_label sm k l =
     (case map_of sm l of
        None \<Rightarrow> Inl ValueError
      | Some r \<Rightarrow> astype_int (fmul (Fin (of_int r)) k))"

fun map_err :: "('a \<Rightarrow> error + 'b) \<Rightarrow> 'a list \<Rightarrow> error + 'b list" where
  "map_err f [] = Inr []"
| "map_err f (x # xs) =
     bind_err (f x) (\<lambda>y. bind_err (map_err f xs) (\<lambda>ys. Inr (y # ys)))"

text \<open>
  \<^verbatim>\<open>generate_credit_scores\<close>. The parameter \<open>fit_predict\<close> stands for the two scikit-learn
  calls \<^verbatim>\<open>KMeans(...).fit_predict(MinMaxScaler().fit_transform(X))\<close>: it returns one
  cluster label per row, or raises (with fewer rows than clusters, for instance). Assigning
  a column of the wrong length to a frame raises \<^verbatim>\<open>ValueError\<close>.
\<close>

definition generate_credit_scores ::
  "(pyfloat list list \<Rightarrow> error + nat list) \<Rightarrow> dataframe \<Rightarrow> error + dataframe" where
  "generate_credit_scores fit_predict df =
     (if index_rows df = [] then Inr df
      else bind_err (fit_predict (model_input df)) (\<lambda>labels.
           if length labels \<noteq> length (index_rows df) then Inl ValueError
           else bind_err (score_mapping (cluster_health_metric df labels)) (\<lambda>sm.
                bind_err (py_int_truediv 1000 (int N_CLUSTERS - 1)) (\<lambda>k.
                bind_err (map_err (score_of_label sm k) labels) (\<lambda>scores.
                Inr (df\<lparr>cluster := Some labels, credit_score := Some scores\<rparr>))))))"

section \<open>Notions for the statements\<close>

subsection \<open>Records the code accepts\<close>

text \<open>
  Notions for stating what the scan of \<^verbatim>\<open>engineer_features\<close> computes. They follow the code,
  not the specification: a record is accepted when it passes the code's truthiness test
  \<^verbatim>\<open>all([wallet, action, timestamp])\<close>, which a timestamp 0 fails, and its USD value is
  computed without an exception; \<open>accepted\<close> gives its wallet, its action as lower-cased by
  the code, its timestamp and its USD value. \<open>tx_error\<close> is the exception with which a
  record ends the scan, if it does. The records that are valid in the sense of the
  specification are defined separately below (\<open>spec_valid\<close>).
\<close>

type_synonym valid_tx = "string \<times> string \<times> int \<times> pyfloat"

definition accepted :: "(string \<Rightarrow> pyfloat option) \<Rightarrow> tx \<Rightarrow> valid_tx option" where
  "accepted str2f t =
     (case (userWallet t, timestamp t) of
        (Some w, Some ts) \<Rightarrow>
          (let a = lower (case action t of None \<Rightarrow> [] | Some a \<Rightarrow> a)
           in if w = [] \<or> a = [] \<or> ts = 0 then None
              else (case usd_value str2f t of Inl e \<Rightarrow> None | Inr v \<Rightarrow> Some (w, a, ts, v)))
      | _ \<Rightarrow> None)"

definition valid_records :: "(string \<Rightarrow> pyfloat option) \<Rightarrow> tx list \<Rightarrow> valid_tx list" where
  "valid_records str2f raw = List.map_filter (accepted str2f) raw"

definition tx_error :: "(string \<Rightarrow> pyfloat option) \<Rightarrow> tx \<Rightarrow> error option" where
  "tx_error str2f t = (case process_tx str2f empty_acc t of Inl e \<Rightarrow> Some e | Inr _ \<Rightarrow> None)"

definition add_record :: "acc \<Rightarrow> valid_tx \<Rightarrow> acc" where
  "add_record st = (\<lambda>(w, a, ts, v).
     \<lparr>wallet_stats = dict_upd w new_stats (accumulate a v) (wallet_stats st),
      wallet_timestamps = dict_upd w [] (\<lambda>l. l @ [ts]) (wallet_timestamps st)\<rparr>)"

definition tx_count :: "valid_tx list \<Rightarrow> string \<Rightarrow> nat" where
  "tx_count vs w = length (filter (\<lambda>(w', a, ts, v). w' = w) vs)"

definition action_count :: "valid_tx list \<Rightarrow> string \<Rightarrow> string \<Rightarrow> nat" where
  "action_count vs w a = length (filter (\<lambda>(w', a', ts, v). w' = w \<and> a' = a) vs)"

definition stamps :: "valid_tx list \<Rightarrow> string \<Rightarrow> int list" where
  "stamps vs w = map (\<lambda>(w', a, ts, v). ts) (filter (\<lambda>(w', a, ts, v). w' = w) vs)"

text \<open>
  The USD values of the accepted records of a wallet, in arrival order, and the values that
  the scan adds to the wallet's entry \<^verbatim>\<open>total_usd_all_actions\<close>: the value of each record
  once (line 103), and once more for a record whose action is \<^verbatim>\<open>all_actions\<close>, since
  \<^verbatim>\<open>f'total_usd_{action}'\<close> (line 105) is then the same key.
\<close>

definition usd_values :: "valid_tx list \<Rightarrow> string \<Rightarrow> pyfloat list" where
  "usd_values vs w = map (\<lambda>(w', a, ts, v). v) (filter (\<lambda>(w', a, ts, v). w' = w) vs)"

definition usd_terms :: "valid_tx list \<Rightarrow> string \<Rightarrow> pyfloat list" where
  "usd_terms vs w =
     concat (map (\<lambda>(w', a, ts, v).
                    if w' = w then (if a = ''all_actions'' then [v, v] else [v]) else []) vs)"

definition cnt :: "acc \<Rightarrow> string \<Rightarrow> string \<Rightarrow> nat" where
  "cnt st w k = (case map_of (wallet_stats st) w of None \<Rightarrow> 0 | Some s \<Rightarrow> counters s k)"

text \<open>A feature row without its order-dependent float sum.\<close>

definition drop_usd :: "features \<Rightarrow> features" where
  "drop_usd f = f\<lparr>total_usd_all_actions := Fin 0\<rparr>"

text \<open>The outcome of the second loop for one wallet, if the wallet has an entry.\<close>

definition row_of ::
  "(string \<times> int list) list \<Rightarrow> (string \<times> stats) list \<Rightarrow> string \<Rightarrow> (error + features) option" where
  "row_of wts ws w =
     (case map_of ws w of None \<Rightarrow> None | Some s \<Rightarrow> Some (wallet_features wts w s))"

text \<open>Floats that are finite and not negative, and floats that are not negative.\<close>

definition nonneg_finite :: "pyfloat \<Rightarrow> bool" where
  "nonneg_finite x = (case x of Fin r \<Rightarrow> 0 \<le> r | _ \<Rightarrow> False)"

definition fnonneg :: "pyfloat \<Rightarrow> bool" where
  "fnonneg x = (case x of Fin r \<Rightarrow> 0 \<le> r | PInf \<Rightarrow> True | _ \<Rightarrow> False)"

text \<open>
  The part of \<^verbatim>\<open>engineer_features\<close> after the scan, and the relation between two outcomes
  that agree on everything but the column \<^verbatim>\<open>total_usd_all_actions\<close>.
\<close>

definition finish :: "acc \<Rightarrow> error + dataframe" where
  "finish st =
     bind_err (features_list (wallet_timestamps st) (wallet_stats st)) (\<lambda>fl.
     if fl = [] then Inl KeyError
     else Inr \<lparr>index_rows = fl, cluster = None, credit_score = None\<rparr>)"

definition same_but_usd :: "error + dataframe \<Rightarrow> error + dataframe \<Rightarrow> bool" where
  "same_but_usd a b =
     (case a of
        Inl e \<Rightarrow> b = Inl e
      | Inr df \<Rightarrow>
          (case b of
             Inl e \<Rightarrow> False
           | Inr df' \<Rightarrow>
               (\<forall>w. map_option drop_usd (map_of (index_rows df) w)
                  = map_option drop_usd (map_of (index_rows df') w))))"

text \<open>
  Notions for stating the properties of the scorer: the composite health scores of the
  clusters that occur, the health score of a cluster, and the number of the health scores in
  \<open>H\<close> that are below \<open>h\<close>.
\<close>

definition health_values :: "dataframe \<Rightarrow> nat list \<Rightarrow> pyfloat set" where
  "health_values df labels = snd ` set (cluster_health_metric df labels)"

definition health_of :: "dataframe \<Rightarrow> nat list \<Rightarrow> nat \<Rightarrow> pyfloat" where
  "health_of df labels c =
     (case map_of (cluster_health_metric df labels) c of None \<Rightarrow> NaN | Some h \<Rightarrow> h)"

definition below :: "pyfloat set \<Rightarrow> pyfloat \<Rightarrow> nat" where
  "below H h = card {h' \<in> H. flt h' h}"

subsection \<open>Valid records of the specification\<close>

text \<open>
  These definitions follow the words of the specification, not the code. A record is
  invalid if wallet, action or timestamp is missing or empty, or if amount or price cannot
  be parsed as a number; the price may be absent (it defaults to 1.0). A timestamp is an
  integer, so a timestamp that is present is not empty, whatever its value. The action type
  is case-insensitive: two actions are the same when they agree after mapping the letters
  \<open>a\<close> to \<open>z\<close> to upper case. \<open>spec_action_count\<close> is the number of valid records of a
  wallet with a given action.
\<close>

definition upper_char :: "char \<Rightarrow> char" where
  "upper_char c =
     (let n = (of_char c :: nat)
      in if 97 \<le> n \<and> n \<le> 122
         then (case c of Char b0 b1 b2 b3 b4 b5 b6 b7 \<Rightarrow> Char b0 b1 b2 b3 b4 False b6 b7)
         else c)"

definition same_action :: "string \<Rightarrow> string \<Rightarrow> bool" where
  "same_action a b = (map upper_char a = map upper_char b)"

definition spec_numeric :: "(string \<Rightarrow> pyfloat option) \<Rightarrow> pyval \<Rightarrow> bool" where
  "spec_numeric str2f v =
     (case v of PNone \<Rightarrow> False | PInt n \<Rightarrow> True | PFloat x \<Rightarrow> True | PStr s \<Rightarrow> str2f s \<noteq> None)"

definition spec_valid :: "(string \<Rightarrow> pyfloat option) \<Rightarrow> tx \<Rightarrow> bool" where
  "spec_valid str2f t =
     (case (userWallet t, action t, timestamp t, actionData t) of
        (Some w, Some a, Some ts, Some d) \<Rightarrow>
          w \<noteq> [] \<and> a \<noteq> []
          \<and> (case amount d of None \<Rightarrow> False | Some v \<Rightarrow> spec_numeric str2f v)
          \<and> (case assetPriceUSD d of None \<Rightarrow> True | Some p \<Rightarrow> spec_numeric str2f p)
      | _ \<Rightarrow> False)"

definition spec_action_count ::
  "(string \<Rightarrow> pyfloat option) \<Rightarrow> tx list \<Rightarrow> string \<Rightarrow> string \<Rightarrow> nat" where
  "spec_action_count str2f raw w a =
     length (filter (\<lambda>t. spec_valid str2f t \<and> userWallet t = Some w
                          \<and> (case action t of None \<Rightarrow> False | Some b \<Rightarrow> same_action b a)) raw)"

section \<open>Example records\<close>

text \<open>A record with every field present: an integer amount and no price.\<close>

definition mk_tx :: "string \<Rightarrow> string \<Rightarrow> int \<Rightarrow> int \<Rightarrow> tx" where
  "mk_tx w a ts amt =
     \<lparr>userWallet = Some w, action = Some a, timestamp = Some ts,
      actionData = Some \<lparr>amount = Some (PInt amt), assetPriceUSD = None\<rparr>\<rparr>"

text \<open>A string conversion that rejects every string, for inputs without string amounts.\<close>

definition no_strings :: "string \<Rightarrow> pyfloat option" where
  "no_strings s = None"

text \<open>
  The scenario of the specification: wallet W1 deposits 100 USD at time 0, borrows 50 USD
  at time 1000 and repays 50 USD at time 2000 (amounts in units of \<open>1e-6\<close>).
\<close>

definition scenario_records :: "tx list" where
  "scenario_records =
     [mk_tx ''W1'' ''deposit'' 0 100000000,
      mk_tx ''W1'' ''borrow'' 1000 50000000,
      mk_tx ''W1'' ''repay'' 2000 50000000]"

text \<open>
  Wallet W1 borrows 50 USD at time 0 and deposits 100 USD at time 1000: no field of either
  record is missing or empty.
\<close>

definition borrow_at_zero :: "tx list" where
  "borrow_at_zero =
     [mk_tx ''W1'' ''borrow'' 0 50000000,
      mk_tx ''W1'' ''deposit'' 1000 100000000]"

text \<open>A deposit record without the key \<^verbatim>\<open>timestamp\<close>.\<close>

definition no_timestamp_record :: tx where
  "no_timestamp_record =
     \<lparr>userWallet = Some ''W1'', action = Some ''deposit'', timestamp = None,
      actionData = Some \<lparr>amount = Some (PInt 100000000), assetPriceUSD = None\<rparr>\<rparr>"

text \<open>The feature table the code computes for the scenario.\<close>

definition scenario_row :: features where
  "scenario_row =
     \<lparr>total_tx = 2, total_usd_all_actions = Fin 100, repay_borrow_ratio_count = Fin 1,
      num_liquidations = 0, liquidation_ratio = Fin 0,
      active_days = Fin (3335999723978145 / 288230376151711744),
      avg_time_between_tx_days = Fin (3335999723978145 / 576460752303423488)\<rparr>"

definition scenario_frame :: dataframe where
  "scenario_frame = \<lparr>index_rows = [(''W1'', scenario_row)], cluster = None, credit_score = None\<rparr>"

text \<open>
  Two deposits: one with a negative amount, one whose amount is the JSON literal
  \<^verbatim>\<open>Infinity\<close>, which \<^verbatim>\<open>json.load\<close> decodes to the float \<open>inf\<close>.
\<close>

definition signed_records :: "tx list" where
  "signed_records =
     [mk_tx ''W1'' ''deposit'' 1620000000 (- 1000000),
      \<lparr>userWallet = Some ''W2'', action = Some ''deposit'', timestamp = Some 1620000000,
       actionData = Some \<lparr>amount = Some (PFloat PInf), assetPriceUSD = None\<rparr>\<rparr>]"

text \<open>The feature table the code computes for these two deposits.\<close>

definition signed_frame :: dataframe where
  "signed_frame =
     \<lparr>index_rows =
        [(''W1'',
          \<lparr>total_tx = 1, total_usd_all_actions = Fin (- 1), repay_borrow_ratio_count = Fin 1,
           num_liquidations = 0, liquidation_ratio = Fin 0, active_days = Fin 0,
           avg_time_between_tx_days = Fin 0\<rparr>),
         (''W2'',
          \<lparr>total_tx = 1, total_usd_all_actions = PInf, repay_borrow_ratio_count = Fin 1,
           num_liquidations = 0, liquidation_ratio = Fin 0, active_days = Fin 0,
           avg_time_between_tx_days = Fin 0\<rparr>)],
      cluster = None, credit_score = None\<rparr>"

text \<open>
  Three deposits of wallet W1 in one block, of \<open>2 ^ 53\<close>, 1 and 1 USD, in two orders, and
  the feature table of such a wallet with a given total.
\<close>

definition big_first :: "tx list" where
  "big_first =
     [mk_tx ''W1'' ''deposit'' 1620000000 9007199254740992000000,
      mk_tx ''W1'' ''deposit'' 1620000000 1000000,
      mk_tx ''W1'' ''deposit'' 1620000000 1000000]"

definition big_last :: "tx list" where
  "big_last =
     [mk_tx ''W1'' ''deposit'' 1620000000 1000000,
      mk_tx ''W1'' ''deposit'' 1620000000 1000000,
      mk_tx ''W1'' ''deposit'' 1620000000 9007199254740992000000]"

definition deposits_frame :: "pyfloat \<Rightarrow> dataframe" where
  "deposits_frame usd =
     \<lparr>index_rows =
        [(''W1'',
          \<lparr>total_tx = 3, total_usd_all_actions = usd, repay_borrow_ratio_count = Fin 1,
           num_liquidations = 0, liquidation_ratio = Fin 0, active_days = Fin 0,
           avg_time_between_tx_days = Fin 0\<rparr>)],
      cluster = None, credit_score = None\<rparr>"

text \<open>
  Feature tables for the scorer. In \<open>graded_frame\<close> the wallets have different repay ratios
  and W3 was liquidated; \<open>shared_labels\<close> puts W1 and W2 into one cluster. In
  \<open>deposit_only_frame\<close> five wallets made one deposit each, of different amounts, and
  \<open>singleton_labels\<close> gives each a cluster of its own.
\<close>

definition mk_row :: "nat \<Rightarrow> pyfloat \<Rightarrow> nat \<Rightarrow> pyfloat \<Rightarrow> features" where
  "mk_row n ratio nl liq =
     \<lparr>total_tx = n, total_usd_all_actions = Fin 100, repay_borrow_ratio_count = ratio,
      num_liquidations = nl, liquidation_ratio = liq, active_days = Fin 0,
      avg_time_between_tx_days = Fin 0\<rparr>"

definition graded_frame :: dataframe where
  "graded_frame =
     \<lparr>index_rows =
        [(''W1'', mk_row 2 (Fin 1) 0 (Fin 0)),
         (''W2'', mk_row 1 (Fin 0) 0 (Fin 0)),
         (''W3'', mk_row 1 (Fin 1) 1 (Fin 1)),
         (''W4'', mk_row 3 (Fin 2) 0 (Fin 0)),
         (''W5'', mk_row 4 (Fin 3) 0 (Fin 0))],
      cluster = None, credit_score = None\<rparr>"

definition shared_labels :: "pyfloat list list \<Rightarrow> error + nat list" where
  "shared_labels X = Inr [0, 0, 1, 2, 3]"

definition deposit_only_frame :: dataframe where
  "deposit_only_frame =
     \<lparr>index_rows =
        [(''W1'', mk_row 1 (Fin 1) 0 (Fin 0)\<lparr>total_usd_all_actions := Fin 100\<rparr>),
         (''W2'', mk_row 1 (Fin 1) 0 (Fin 0)\<lparr>total_usd_all_actions := Fin 200\<rparr>),
         (''W3'', mk_row 1 (Fin 1) 0 (Fin 0)\<lparr>total_usd_all_actions := Fin 300\<rparr>),
         (''W4'', mk_row 1 (Fin 1) 0 (Fin 0)\<lparr>total_usd_all_actions := Fin 400\<rparr>),
         (''W5'', mk_row 1 (Fin 1) 0 (Fin 0)\<lparr>total_usd_all_actions := Fin 500\<rparr>)],
      cluster = None, credit_score = None\<rparr>"

definition singleton_labels :: "pyfloat list list \<Rightarrow> error + nat list" where
  "singleton_labels X = Inr [0, 1, 2, 3, 4]"

section \<open>Rounding\<close>

lemma bitlen_powi_bounds:
  assumes "0 < n"
  shows "(2::rat) powi (bitlen n - 1) \<le> of_int n" and "of_int n < (2::rat) powi bitlen n"
proof -
  from bitlen_bounds[OF assms] have a: "2 ^ nat (bitlen n - 1) \<le> n" and b: "n < 2 ^ nat (bitlen n)"
    by auto
  have pos: "1 \<le> bitlen n" using assms by (simp add: bitlen_alt_def)
  have "(2::rat) powi (bitlen n - 1) = of_int (2 ^ nat (bitlen n - 1))"
    using pos by (simp add: power_int_def)
  also have "\<dots> \<le> of_int n" using a by (simp only: of_int_le_iff)
  finally show "(2::rat) powi (bitlen n - 1) \<le> of_int n" .
  have "(of_int n :: rat) < of_int (2 ^ nat (bitlen n))" using b by (simp only: of_int_less_iff)
  also have "\<dots> = 2 powi bitlen n" using pos by (simp add: power_int_def)
  finally show "of_int n < (2::rat) powi bitlen n" .
qed

lemma float_exponent_bounds:
  assumes "x \<noteq> 0"
  shows "2 powi float_exponent x \<le> \<bar>x\<bar> \<and> \<bar>x\<bar> < 2 powi (float_exponent x + 1)"
proof -
  obtain p q where pq: "quotient_of x = (p, q)" by (cases "quotient_of x")
  have q: "0 < q" using pq by (rule quotient_of_denom_pos)
  have x: "x = of_int p / of_int q" using pq by (rule quotient_of_div)
  have p: "p \<noteq> 0" using assms x by auto
  then have ap: "0 < \<bar>p\<bar>" by simp
  define d where "d = bitlen \<bar>p\<bar> - bitlen q"
  have ax: "\<bar>x\<bar> = of_int \<bar>p\<bar> / of_int q" using x q by (simp add: abs_divide)
  note bp = bitlen_powi_bounds[OF ap] and bq = bitlen_powi_bounds[OF q]
  have qpos: "(0::rat) < of_int q" using q by simp
  have up: "\<bar>x\<bar> < 2 powi (d + 1)"
  proof -
    have "\<bar>x\<bar> < 2 powi bitlen \<bar>p\<bar> / of_int q"
      unfolding ax using bp(2) qpos by (simp add: divide_strict_right_mono)
    also have "\<dots> \<le> 2 powi bitlen \<bar>p\<bar> / 2 powi (bitlen q - 1)"
      using bq(1) by (intro divide_left_mono) (auto intro!: mult_pos_pos qpos)
    also have "\<dots> = 2 powi (d + 1)"
      by (simp add: d_def power_int_diff[symmetric] algebra_simps)
    finally show ?thesis .
  qed
  have lo: "2 powi (d - 1) \<le> \<bar>x\<bar>"
  proof -
    have "(2::rat) powi (d - 1) = 2 powi (bitlen \<bar>p\<bar> - 1) / 2 powi bitlen q"
      by (simp add: d_def power_int_diff[symmetric] algebra_simps)
    also have "\<dots> \<le> of_int \<bar>p\<bar> / 2 powi bitlen q"
      using bp(1) by (simp add: divide_right_mono)
    also have "\<dots> \<le> of_int \<bar>p\<bar> / of_int q"
      using bq(2) qpos ap by (intro divide_left_mono) (auto intro!: mult_pos_pos)
    finally show ?thesis by (simp add: ax)
  qed
  have fe: "float_exponent x = (if 2 powi d \<le> \<bar>x\<bar> then d else d - 1)"
    by (simp add: float_exponent_def pq d_def Let_def)
  show ?thesis
    using up lo by (auto simp: fe)
qed

lemma powi_bracket_unique:
  assumes "(2::rat) powi e \<le> y" "y < 2 powi (e + 1)" "2 powi e' \<le> y" "y < 2 powi (e' + 1)"
  shows "e = e'"
proof (rule ccontr)
  assume "e \<noteq> e'"
  then consider "e + 1 \<le> e'" | "e' + 1 \<le> e" by linarith
  then show False
  proof cases
    case 1
    then have "(2::rat) powi (e + 1) \<le> 2 powi e'" by (intro power_int_increasing) auto
    with assms show False by linarith
  next
    case 2
    then have "(2::rat) powi (e' + 1) \<le> 2 powi e" by (intro power_int_increasing) auto
    with assms show False by linarith
  qed
qed

lemma float_exponent_unique:
  assumes "x \<noteq> 0" "2 powi e \<le> \<bar>x\<bar>" "\<bar>x\<bar> < 2 powi (e + 1)"
  shows "float_exponent x = e"
  using float_exponent_bounds[OF assms(1)] assms(2,3) powi_bracket_unique by blast

lemma round_half_even_of_int [simp]: "round_half_even (of_int z) = z"
  by (simp add: round_half_even_def)

lemma round_half_even_nonneg: "0 \<le> q \<Longrightarrow> 0 \<le> round_half_even q"
  by (auto simp: round_half_even_def Let_def)

lemma round_half_even_le: "of_int (round_half_even q) \<le> q + 1"
  unfolding round_half_even_def Let_def by (auto; linarith)

lemma rnd_eval:
  assumes "x \<noteq> 0" "2 powi e \<le> \<bar>x\<bar>" "\<bar>x\<bar> < 2 powi (e + 1)"
  shows "rnd x =
     (let ulp = 2 powi (max e (- 1022) - 52);
          r = of_int (round_half_even (x / ulp)) * ulp
      in if 2 ^ 1024 \<le> r then PInf else if r \<le> - (2 ^ 1024) then NInf else Fin r)"
  using assms by (simp add: rnd_def float_exponent_unique[OF assms])

lemma rnd_representable:
  assumes x: "x = of_int m * 2 powi k" and m: "\<bar>m\<bar> < 2 ^ 53" and k: "- 1074 \<le> k" "k \<le> 971"
  shows "rnd x = Fin x"
proof (cases "x = 0")
  case True
  then show ?thesis by (simp add: rnd_def)
next
  case False
  define e where "e = float_exponent x"
  define u where "u = max e (- 1022) - 52"
  have eb: "2 powi e \<le> \<bar>x\<bar>" "\<bar>x\<bar> < 2 powi (e + 1)"
    using float_exponent_bounds[OF False] by (simp_all add: e_def)
  have am: "(of_int \<bar>m\<bar> :: rat) < 2 ^ 53"
    using m by (metis of_int_less_iff of_int_numeral of_int_power)
  have ax: "\<bar>x\<bar> = of_int \<bar>m\<bar> * 2 powi k"
    by (simp add: x abs_mult)
  have "\<bar>x\<bar> < 2 ^ 53 * 2 powi k"
    unfolding ax using am by (simp add: mult_strict_right_mono)
  also have "\<dots> = 2 powi (53 + k)"
    by (simp add: power_int_add)
  finally have xlt: "\<bar>x\<bar> < 2 powi (53 + k)" .
  have "e < 53 + k"
  proof (rule ccontr)
    assume "\<not> e < 53 + k"
    then have "(2::rat) powi (53 + k) \<le> 2 powi e" by (intro power_int_increasing) auto
    with eb(1) xlt show False by linarith
  qed
  then have uk: "u \<le> k" using k by (simp add: u_def)
  have "(2::rat) powi k = 2 powi (k - u) * 2 powi u"
    by (simp add: power_int_add[symmetric])
  also have "(2::rat) powi (k - u) = of_int (2 ^ nat (k - u))"
    using uk by (simp add: power_int_def)
  finally have pk: "(2::rat) powi k = of_int (2 ^ nat (k - u)) * 2 powi u" .
  have q: "x / 2 powi u = of_int (m * 2 ^ nat (k - u))"
    by (simp add: x pk)
  have r: "of_int (round_half_even (x / 2 powi u)) * 2 powi u = x"
    unfolding q round_half_even_of_int using q by (simp add: field_simps)
  have "\<bar>x\<bar> < 2 powi (53 + 971)"
  proof -
    have "(2::rat) powi (53 + k) \<le> 2 powi (53 + 971)"
      using k by (intro power_int_increasing) auto
    with xlt show ?thesis by linarith
  qed
  then have fin: "\<bar>x\<bar> < 2 ^ 1024" by (simp add: power_int_def)
  have "rnd x = (if 2 ^ 1024 \<le> x then PInf else if x \<le> - (2 ^ 1024) then NInf else Fin x)"
    using False r by (simp add: rnd_def e_def[symmetric] u_def[symmetric] Let_def)
  with fin show ?thesis by (auto simp: abs_less_iff)
qed

lemma rnd_of_int:
  assumes "\<bar>n\<bar> < 2 ^ 53"
  shows "rnd (of_int n) = Fin (of_int n)"
  using rnd_representable[of "of_int n" n 0] assms by simp

lemma rnd_nonneg:
  assumes "0 \<le> x"
  shows "rnd x = PInf \<or> (\<exists>r. rnd x = Fin r \<and> 0 \<le> r)"
proof (cases "x = 0")
  case True
  then show ?thesis by (simp add: rnd_def)
next
  case False
  define u where "u = max (float_exponent x) (- 1022) - 52"
  have up: "(0::rat) < 2 powi u" by simp
  have "0 \<le> x / 2 powi u" using assms up by simp
  then have "0 \<le> round_half_even (x / 2 powi u)" by (rule round_half_even_nonneg)
  then have "0 \<le> of_int (round_half_even (x / 2 powi u)) * (2::rat) powi u"
    by simp
  then show ?thesis
    using False by (auto simp: rnd_def u_def[symmetric] Let_def)
qed

lemma rnd_bounded:
  assumes "0 \<le> x" "x \<le> 2 ^ 1023"
  shows "\<exists>r. rnd x = Fin r \<and> 0 \<le> r"
proof (cases "x = 0")
  case True
  then show ?thesis by (simp add: rnd_def)
next
  case False
  define e where "e = float_exponent x"
  define u where "u = max e (- 1022) - 52"
  have eb: "2 powi e \<le> x"
    using float_exponent_bounds[OF False] assms(1) by (simp add: e_def)
  have "e \<le> 1023"
  proof (rule ccontr)
    assume "\<not> e \<le> 1023"
    then have "(2::rat) powi 1024 \<le> 2 powi e" by (intro power_int_increasing) auto
    moreover have "(2::rat) ^ 1023 < 2 powi 1024" by (simp add: power_int_def)
    ultimately show False using eb assms(2) by linarith
  qed
  then have "u \<le> 971" by (simp add: u_def)
  then have "(2::rat) powi u \<le> 2 powi 971" by (intro power_int_increasing) auto
  then have ub: "(2::rat) powi u \<le> 2 ^ 971" by (simp add: power_int_def)
  have up: "(0::rat) < 2 powi u" by simp
  define r where "r = of_int (round_half_even (x / 2 powi u)) * (2::rat) powi u"
  have "0 \<le> x / 2 powi u" using assms up by simp
  then have "0 \<le> round_half_even (x / 2 powi u)" by (rule round_half_even_nonneg)
  then have r0: "0 \<le> r" by (simp add: r_def)
  have "r \<le> (x / 2 powi u + 1) * 2 powi u"
    unfolding r_def using round_half_even_le[of "x / 2 powi u"] up
    by (intro mult_right_mono) auto
  also have "\<dots> = x + 2 powi u" using up by (simp add: field_simps)
  also have "\<dots> \<le> 2 ^ 1023 + 2 ^ 971" using assms(2) ub by linarith
  also have "\<dots> < (2::rat) ^ 1024" by simp
  finally have "r < 2 ^ 1024" .
  then show ?thesis
    using False r0 by (auto simp: rnd_def e_def[symmetric] u_def[symmetric] r_def[symmetric] Let_def)
qed

lemma round_half_even_cases:
  assumes "q = of_int f + d" "0 \<le> d" "d < 1"
  shows "round_half_even q =
     (if d < 1 / 2 then f else if 1 / 2 < d then f + 1 else if even f then f else f + 1)"
proof -
  have "\<lfloor>q\<rfloor> = f" using assms by (simp add: floor_unique)
  then show ?thesis using assms(1) by (simp add: round_half_even_def Let_def)
qed

section \<open>Sequencing and the scan\<close>

lemma bind_err_simps [simp]:
  "bind_err (Inl e) f = Inl e"
  "bind_err (Inr v) f = f v"
  by (simp_all add: bind_err_def)

lemma scan_append:
  "scan p st (xs @ ys) = bind_err (scan p st xs) (\<lambda>st'. scan p st' ys)"
  by (induction xs arbitrary: st) (auto split: sum.splits)

lemma process_tx_falsy:
  assumes "timestamp t = Some 0 \<or> userWallet t = Some [] \<or> action t = Some []"
  shows "process_tx p st t = Inr st"
  using assms by (auto simp: process_tx_def lower_def split: option.splits)

section \<open>The accumulators after the scan\<close>

lemma fdiv_million: "\<exists>y. fdiv x (Fin 1000000) = Inr y"
  by (cases x) simp_all

lemma py_float_error: "py_float p v = Inl e \<Longrightarrow> e \<in> {TypeError, ValueError, OverflowError}"
  by (auto simp: py_float_def split: pyval.splits pyfloat.splits option.splits)

lemma usd_value_error:
  "usd_value p t = Inl e \<Longrightarrow> e \<in> {KeyError, TypeError, ValueError, OverflowError}"
  using fdiv_million
  by (auto simp: usd_value_def bind_err_def split: option.splits sum.splits dest: py_float_error)

lemma process_tx_accepted:
  "accepted p t = Some v \<Longrightarrow> process_tx p st t = Inr (add_record st v)"
  by (auto simp: accepted_def process_tx_def add_record_def Let_def
      split: option.splits if_splits sum.splits)

lemma process_tx_rejected:
  "accepted p t = None \<Longrightarrow> process_tx p st t = (case tx_error p t of None \<Rightarrow> Inr st | Some e \<Rightarrow> Inl e)"
  by (auto simp: accepted_def process_tx_def tx_error_def Let_def
      split: option.splits if_splits sum.splits)

lemma tx_error_accepted: "accepted p t = Some v \<Longrightarrow> tx_error p t = None"
  by (simp add: tx_error_def process_tx_accepted)

lemma tx_error_Overflow: "tx_error p t = Some e \<Longrightarrow> e = OverflowError"
  by (auto simp: tx_error_def process_tx_def Let_def
      split: option.splits if_splits sum.splits dest: usd_value_error)

lemma scan_Inr:
  "\<forall>t\<in>set raw. tx_error p t = None \<Longrightarrow> scan p st raw = Inr (foldl add_record st (valid_records p raw))"
proof (induction raw arbitrary: st)
  case Nil
  then show ?case by (simp add: valid_records_def map_filter_simps)
next
  case (Cons t raw)
  show ?case
  proof (cases "accepted p t")
    case None
    then show ?thesis using Cons
      by (simp add: process_tx_rejected valid_records_def map_filter_simps)
  next
    case (Some v)
    then show ?thesis using Cons
      by (simp add: process_tx_accepted valid_records_def map_filter_simps)
  qed
qed

lemma scan_Inl:
  "\<exists>t\<in>set raw. tx_error p t \<noteq> None \<Longrightarrow> scan p st raw = Inl OverflowError"
proof (induction raw arbitrary: st)
  case Nil
  then show ?case by simp
next
  case (Cons t raw)
  show ?case
  proof (cases "accepted p t")
    case (Some v)
    then show ?thesis using Cons
      by (auto simp: process_tx_accepted tx_error_accepted)
  next
    case None
    show ?thesis
    proof (cases "tx_error p t")
      case N: None
      then show ?thesis using Cons None by (auto simp: process_tx_rejected)
    next
      case (Some e)
      then show ?thesis using None by (auto simp: process_tx_rejected dest: tx_error_Overflow)
    qed
  qed
qed

lemma map_of_dict_upd:
  "map_of (dict_upd k d f kvs) = (map_of kvs)(k \<mapsto> f (case map_of kvs k of None \<Rightarrow> d | Some v \<Rightarrow> v))"
  by (induction kvs) (auto simp: fun_eq_iff)

lemma keys_dict_upd_in:
  "k \<in> fst ` set kvs \<Longrightarrow> map fst (dict_upd k d f kvs) = map fst kvs"
  by (induction kvs) force+

lemma keys_dict_upd_notin:
  "k \<notin> fst ` set kvs \<Longrightarrow> map fst (dict_upd k d f kvs) = map fst kvs @ [k]"
  by (induction kvs) force+

lemma keys_dict_upd:
  "map fst (dict_upd k d f kvs) = (if k \<in> fst ` set kvs then map fst kvs else map fst kvs @ [k])"
  by (simp add: keys_dict_upd_in keys_dict_upd_notin)

lemma distinct_dict_upd:
  "distinct (map fst kvs) \<Longrightarrow> distinct (map fst (dict_upd k d f kvs))"
  by (simp add: keys_dict_upd)

lemma counters_accumulate:
  "counters (accumulate a v s) k =
     counters s k + (if k = ''total_tx'' then 1 else 0) + (if k = ''num_'' @ a then 1 else 0)"
  by (simp add: accumulate_def Let_def)

lemma add_record_simps [simp]:
  "wallet_stats (add_record st (w, a, ts, v)) =
     dict_upd w new_stats (accumulate a v) (wallet_stats st)"
  "wallet_timestamps (add_record st (w, a, ts, v)) =
     dict_upd w [] (\<lambda>l. l @ [ts]) (wallet_timestamps st)"
  by (simp_all add: add_record_def)

lemma stamps_snoc:
  "stamps (vs @ [(w', a, ts, v)]) w = stamps vs w @ (if w' = w then [ts] else [])"
  by (simp add: stamps_def)

lemma stamps_notin: "w \<notin> fst ` set vs \<Longrightarrow> stamps vs w = []"
  by (auto simp: stamps_def filter_empty_conv image_iff)

lemma cnt_add_record:
  "cnt (add_record st (w, a, ts, v)) w' k =
     cnt st w' k + (if w' = w then (if k = ''total_tx'' then 1 else 0) + (if k = ''num_'' @ a then 1 else 0) else 0)"
  by (simp add: cnt_def map_of_dict_upd counters_accumulate new_stats_def
      split: option.splits)

lemma cnt_fold_total:
  "cnt (foldl add_record empty_acc vs) w ''total_tx'' = tx_count vs w"
proof (induction vs rule: rev_induct)
  case Nil
  then show ?case by (simp add: cnt_def empty_acc_def tx_count_def)
next
  case (snoc x xs)
  obtain w' a ts v where x: "x = (w', a, ts, v)" by (cases x)
  show ?case using snoc by (simp add: x cnt_add_record tx_count_def)
qed

lemma cnt_fold_action:
  "cnt (foldl add_record empty_acc vs) w (''num_'' @ a) = action_count vs w a"
proof (induction vs rule: rev_induct)
  case Nil
  then show ?case by (simp add: cnt_def empty_acc_def action_count_def)
next
  case (snoc x xs)
  obtain w' a' ts v where x: "x = (w', a', ts, v)" by (cases x)
  show ?case using snoc by (auto simp: x cnt_add_record action_count_def)
qed

lemma keys_fold:
  "set (map fst (wallet_stats (foldl add_record empty_acc vs))) = fst ` set vs
   \<and> distinct (map fst (wallet_stats (foldl add_record empty_acc vs)))"
proof (induction vs rule: rev_induct)
  case Nil
  then show ?case by (simp add: empty_acc_def)
next
  case (snoc x xs)
  obtain w' a' ts v where x: "x = (w', a', ts, v)" by (cases x)
  show ?case using snoc by (auto simp: x keys_dict_upd)
qed

lemma stamps_fold:
  "map_of (wallet_timestamps (foldl add_record empty_acc vs)) w =
     (if w \<in> fst ` set vs then Some (stamps vs w) else None)"
proof (induction vs rule: rev_induct)
  case Nil
  then show ?case by (simp add: empty_acc_def)
next
  case (snoc x xs)
  obtain w' a' ts v where x: "x = (w', a', ts, v)" by (cases x)
  show ?case
  proof (cases "w \<in> fst ` set xs")
    case True
    then show ?thesis using snoc
      by (auto simp: x map_of_dict_upd stamps_snoc)
  next
    case False
    then show ?thesis using snoc
      by (auto simp: x map_of_dict_upd stamps_snoc stamps_notin)
  qed
qed

section \<open>The feature rows\<close>

lemma fdiv_Fin_pos: "b \<noteq> 0 \<Longrightarrow> fdiv (Fin a) (Fin b) = Inr (rnd (a / b))"
  by simp

lemma py_int_truediv_error: "py_int_truediv a 86400 = Inl e \<Longrightarrow> e = OverflowError"
  by (auto simp: py_int_truediv_def split: pyfloat.splits)

lemma py_int_truediv_Inr: "py_int_truediv a b = Inr x \<Longrightarrow> b \<noteq> 0 \<and> x = rnd (of_int a / of_int b) \<and> is_finite x"
  by (auto simp: py_int_truediv_def is_finite_def split: pyfloat.splits if_splits)

lemma wallet_features_error: "wallet_features wts w s = Inl e \<Longrightarrow> e = OverflowError"
  by (auto simp: wallet_features_def Let_def bind_err_def
      split: sum.splits if_splits dest: py_int_truediv_error)

lemma wallet_features_Inr:
  assumes "wallet_features wts w s = Inr f"
  shows "total_tx f = counters s ''total_tx''"
    and "total_usd_all_actions f = usd_totals s ''total_usd_all_actions''"
    and "num_liquidations f = counters s ''num_liquidationcall''"
    and "repay_borrow_ratio_count f =
           (if 0 < counters s ''num_borrow''
            then rnd (of_nat (counters s ''num_repay'') / of_nat (counters s ''num_borrow''))
            else Fin 1)"
    and "liquidation_ratio f =
           (if 0 < counters s ''total_tx''
            then rnd (of_nat (counters s ''num_liquidationcall'') / of_nat (counters s ''total_tx''))
            else Fin 0)"
  using assms
  by (auto simp: wallet_features_def Let_def bind_err_def split: sum.splits if_splits)

lemma features_list_Inr:
  "features_list wts ws = Inr fl \<Longrightarrow>
     list_all2 (\<lambda>(w, s) (w', f). w' = w \<and> wallet_features wts w s = Inr f) ws fl"
  by (induction ws arbitrary: fl) (auto simp: bind_err_def split: sum.splits)

lemma features_list_keys: "features_list wts ws = Inr fl \<Longrightarrow> map fst fl = map fst ws"
  by (induction ws arbitrary: fl) (auto simp: bind_err_def split: sum.splits)

lemma features_list_Inl:
  "features_list wts ws = Inl e \<Longrightarrow>
     e = OverflowError \<and> (\<exists>(w, s)\<in>set ws. wallet_features wts w s = Inl OverflowError)"
proof (induction ws)
  case Nil
  then show ?case by simp
next
  case (Cons a ws)
  obtain w s where a: "a = (w, s)" by (cases a)
  show ?case using Cons
    by (auto simp: a bind_err_def split: sum.splits dest: wallet_features_error)
qed

lemma features_list_row:
  assumes "features_list wts ws = Inr fl" "distinct (map fst ws)"
  shows "map_of fl w =
           (case row_of wts ws w of None \<Rightarrow> None | Some (Inl e) \<Rightarrow> None | Some (Inr f) \<Rightarrow> Some f)"
    and "row_of wts ws w \<noteq> Some (Inl e)"
  using assms
proof (induction ws arbitrary: fl)
  case Nil
  { case 1 then show ?case by (simp add: row_of_def) }
  { case 2 then show ?case by (simp add: row_of_def) }
next
  case (Cons a ws)
  obtain w' s where a: "a = (w', s)" by (cases a)
  { case 1
    then show ?case using Cons(1)
      by (auto simp: a row_of_def bind_err_def split: sum.splits) }
  { case 2
    then show ?case using Cons(2)
      by (auto simp: a row_of_def bind_err_def split: sum.splits) }
qed

section \<open>Evaluation on concrete records\<close>

lemma rnd_numeral [simp]:
  "(numeral n :: int) < 9007199254740992 \<Longrightarrow> rnd (numeral n) = Fin (numeral n)"
  using rnd_of_int[of "numeral n"] by simp

lemma rnd_zero [simp]: "rnd 0 = Fin 0"
  by (simp add: rnd_def)

lemma rnd_one [simp]: "rnd 1 = Fin 1"
  using rnd_of_int[of 1] by simp

lemma rnd_days: "rnd (5 / 432) = Fin (3335999723978145 / 288230376151711744)"
proof -
  have "round_half_even (5 / 432 * 576460752303423488) = 6671999447956290"
    using round_half_even_cases[of "5 / 432 * 576460752303423488" 6671999447956290 "10 / 27"]
    by simp
  then show ?thesis
    by (simp add: rnd_eval[where e = "- 7"] Let_def power_int_minus)
qed

lemma rnd_half_days:
  "rnd (3335999723978145 / 576460752303423488) = Fin (3335999723978145 / 576460752303423488)"
  using rnd_representable[of "3335999723978145 / 576460752303423488" 3335999723978145 "- 59"]
  by (simp add: power_int_minus)

lemma rnd_claimed_days: "rnd (5 / 216) = Fin (3335999723978145 / 144115188075855872)"
proof -
  have "round_half_even (5 / 216 * 288230376151711744) = 6671999447956290"
    using round_half_even_cases[of "5 / 216 * 288230376151711744" 6671999447956290 "10 / 27"]
    by simp
  then show ?thesis
    by (simp add: rnd_eval[where e = "- 6"] Let_def power_int_minus)
qed

lemmas eval_defs =
  engineer_features_def mk_tx_def process_tx_def lower_def lower_char_def usd_value_def
  py_float_def new_stats_def accumulate_def wallet_features_def py_int_truediv_def
  empty_acc_def Let_def

lemma scenario_eval: "engineer_features str2f scenario_records = Inr scenario_frame"
  by (simp add: scenario_records_def scenario_frame_def scenario_row_def eval_defs rnd_days
      rnd_half_days)

section \<open>From the feature table back to the records\<close>

lemma scan_total: "scan p st raw = Inl OverflowError \<or> scan p st raw = Inr (foldl add_record st (valid_records p raw)) \<and> (\<forall>t\<in>set raw. tx_error p t = None)"
  using scan_Inl[of raw p st] scan_Inr[of raw p st] by blast

lemma engineer_features_Inr:
  assumes "engineer_features p raw = Inr df" "raw \<noteq> []"
  shows "features_list (wallet_timestamps (foldl add_record empty_acc (valid_records p raw)))
           (wallet_stats (foldl add_record empty_acc (valid_records p raw))) = Inr (index_rows df)"
    and "\<forall>t\<in>set raw. tx_error p t = None"
    and "index_rows df \<noteq> []"
    and "cluster df = None" and "credit_score df = None"
  using assms scan_total[of p empty_acc raw]
  by (auto simp: engineer_features_def bind_err_def split: sum.splits if_splits)

lemma in_features_list:
  assumes "features_list wts ws = Inr fl" "(w, f) \<in> set fl" "distinct (map fst ws)"
  shows "\<exists>s. map_of ws w = Some s \<and> wallet_features wts w s = Inr f"
proof -
  from features_list_Inr[OF assms(1)]
  have l2: "list_all2 (\<lambda>(w, s) (w', f). w' = w \<and> wallet_features wts w s = Inr f) ws fl" .
  from assms(2) obtain i where i: "i < length fl" "fl ! i = (w, f)"
    by (auto simp: in_set_conv_nth)
  from l2 i have len: "i < length ws" by (simp add: list_all2_lengthD)
  obtain w' s where ws: "ws ! i = (w', s)" by (cases "ws ! i")
  from list_all2_nthD[OF l2 len] have "w' = w" "wallet_features wts w s = Inr f"
    by (simp_all add: ws i(2))
  moreover have "(w', s) \<in> set ws" using len ws by (metis nth_mem)
  ultimately show ?thesis using assms(3) by auto
qed

lemma engineer_features_row:
  assumes "engineer_features p raw = Inr df" "(w, f) \<in> set (index_rows df)"
  shows "\<exists>s. map_of (wallet_stats (foldl add_record empty_acc (valid_records p raw))) w = Some s
           \<and> wallet_features (wallet_timestamps (foldl add_record empty_acc (valid_records p raw))) w s = Inr f"
proof -
  have ne: "raw \<noteq> []" using assms by (auto simp: engineer_features_def empty_frame_def)
  show ?thesis
    using in_features_list[OF engineer_features_Inr(1)[OF assms(1) ne] assms(2)] keys_fold
    by blast
qed

lemma counters_fold:
  assumes "map_of (wallet_stats (foldl add_record empty_acc vs)) w = Some s"
  shows "counters s ''total_tx'' = tx_count vs w"
    and "counters s (''num_'' @ a) = action_count vs w a"
  using cnt_fold_total[of vs w] cnt_fold_action[of vs w a] assms by (simp_all add: cnt_def)

section \<open>Signs and finiteness of the features\<close>

lemma rnd_Fin_bound: "rnd x = Fin r \<Longrightarrow> \<bar>r\<bar> < 2 ^ 1024"
  by (auto simp: rnd_def Let_def abs_less_iff split: if_splits)

lemma nonneg_finite_rnd:
  assumes "0 \<le> x" "x \<le> 2 ^ 1023"
  shows "nonneg_finite (rnd x)"
  using rnd_bounded[OF assms] by (auto simp: nonneg_finite_def)

lemma sorted_hd_le_last: "sorted xs \<Longrightarrow> xs \<noteq> [] \<Longrightarrow> hd xs \<le> last xs"
  by (cases xs) auto

lemma wallet_features_days:
  assumes "wallet_features wts w s = Inr f"
  shows "\<exists>r. active_days f = Fin r \<and> 0 \<le> r \<and> r < 2 ^ 1024"
proof -
  define ts where "ts = sort (case map_of wts w of None \<Rightarrow> [0] | Some l \<Rightarrow> l)"
  have d: "(if 1 < length ts then py_int_truediv (last ts - hd ts) 86400 else Inr (Fin 0))
             = Inr (active_days f)"
    using assms
    by (auto simp: wallet_features_def Let_def bind_err_def ts_def split: sum.splits if_splits)
  show ?thesis
  proof (cases "1 < length ts")
    case False
    then have "active_days f = Fin 0" using d by auto
    then show ?thesis by simp
  next
    case True
    then have ne: "ts \<noteq> []" by auto
    have "sorted ts" by (simp add: ts_def)
    then have le: "hd ts \<le> last ts" using ne by (rule sorted_hd_le_last)
    from True d have "py_int_truediv (last ts - hd ts) 86400 = Inr (active_days f)" by simp
    from py_int_truediv_Inr[OF this]
    have x: "active_days f = rnd (of_int (last ts - hd ts) / of_int 86400)"
      and fin: "is_finite (active_days f)"
      by auto
    from fin obtain r where r: "active_days f = Fin r"
      by (auto simp: is_finite_def split: pyfloat.splits)
    have "(0::rat) \<le> of_int (last ts - hd ts) / of_int 86400" using le by simp
    from rnd_nonneg[OF this] have "0 \<le> r" using r x by auto
    moreover have "r < 2 ^ 1024" using rnd_Fin_bound[of _ r] r x by (auto simp: abs_less_iff)
    ultimately show ?thesis using r by simp
  qed
qed

lemma wallet_features_avg:
  assumes "wallet_features wts w s = Inr f"
  shows "nonneg_finite (avg_time_between_tx_days f)"
proof -
  have a: "(if 1 < counters s ''total_tx''
            then fdiv (active_days f) (Fin (of_nat (counters s ''total_tx''))) else Inr (Fin 0))
           = Inr (avg_time_between_tx_days f)"
    using assms
    by (auto simp: wallet_features_def Let_def bind_err_def split: sum.splits if_splits)
  from wallet_features_days[OF assms] obtain r where
    r: "active_days f = Fin r" "0 \<le> r" "r < 2 ^ 1024"
    by auto
  show ?thesis
  proof (cases "1 < counters s ''total_tx''")
    case False
    then have "avg_time_between_tx_days f = Fin 0" using a by auto
    then show ?thesis by (simp add: nonneg_finite_def)
  next
    case True
    define n where "n = counters s ''total_tx''"
    have n: "2 \<le> n" using True by (simp add: n_def)
    have avg: "avg_time_between_tx_days f = rnd (r / of_nat n)"
      using a True r n by (auto simp: n_def)
    have n2: "(2::rat) \<le> of_nat n" using n by (metis of_nat_le_iff of_nat_numeral)
    have "r / of_nat n \<le> r / 2"
      using r(2) n2 by (intro divide_left_mono) auto
    also have "\<dots> \<le> 2 ^ 1023" using r(3) by simp
    finally have "r / of_nat n \<le> 2 ^ 1023" .
    moreover have "0 \<le> r / of_nat n" using r(2) by simp
    ultimately show ?thesis unfolding avg by (intro nonneg_finite_rnd)
  qed
qed

lemma nonneg_finite_count_ratio:
  assumes "a < 2 ^ 53"
  shows "nonneg_finite (rnd (of_nat a / of_nat b))"
proof (rule nonneg_finite_rnd)
  show "(0::rat) \<le> of_nat a / of_nat b" by simp
  have "(of_nat a :: rat) / of_nat b \<le> of_nat a"
    by (cases "b = 0") (simp_all add: divide_le_eq mult_le_cancel_left1)
  also have "(of_nat a :: rat) \<le> of_nat (2 ^ 53)" using assms by (simp only: of_nat_le_iff)
  also have "\<dots> \<le> (2::rat) ^ 1023" by simp
  finally show "(of_nat a :: rat) / of_nat b \<le> 2 ^ 1023" .
qed

lemma length_valid_records: "length (valid_records p raw) \<le> length raw"
  by (simp add: valid_records_def map_filter_def)

lemma action_count_le: "action_count vs w a \<le> length vs"
  by (simp add: action_count_def)

lemma tx_count_pos: "w \<in> fst ` set vs \<Longrightarrow> 1 \<le> tx_count vs w"
  by (force simp: tx_count_def Suc_le_eq length_greater_0_conv filter_empty_conv)

lemma fadd_fnonneg: "fnonneg x \<Longrightarrow> fnonneg y \<Longrightarrow> fnonneg (fadd x y)"
proof (cases x; cases y)
  fix a b assume "fnonneg x" "fnonneg y" "x = Fin a" "y = Fin b"
  then have "0 \<le> a + b" by (simp add: fnonneg_def)
  from rnd_nonneg[OF this] show "fnonneg (fadd x y)"
    using \<open>x = Fin a\<close> \<open>y = Fin b\<close> by (auto simp: fnonneg_def)
qed (auto simp: fnonneg_def)

lemma usd_accumulate:
  assumes "fnonneg v" "\<forall>k. fnonneg (usd_totals s k)"
  shows "fnonneg (usd_totals (accumulate a v s) k)"
  using assms by (simp add: accumulate_def Let_def fadd_fnonneg)

lemma usd_fold:
  assumes "\<forall>(w, a, ts, v)\<in>set vs. fnonneg v"
    and "map_of (wallet_stats (foldl add_record empty_acc vs)) w = Some s"
  shows "fnonneg (usd_totals s k)"
  using assms
proof (induction vs arbitrary: w s k rule: rev_induct)
  case Nil
  then show ?case by (simp add: empty_acc_def)
next
  case (snoc x xs)
  obtain w' a ts v where x: "x = (w', a, ts, v)" by (cases x)
  have v: "fnonneg v" using snoc.prems(1) by (simp add: x)
  have ih: "map_of (wallet_stats (foldl add_record empty_acc xs)) w = Some s' \<Longrightarrow> fnonneg (usd_totals s' k')"
    for w s' k'
    using snoc.IH[of w s' k'] snoc.prems(1) by simp
  have new: "fnonneg (usd_totals new_stats k')" for k'
    by (simp add: new_stats_def fnonneg_def)
  show ?case
    using snoc.prems(2) ih new v
    by (auto simp: x map_of_dict_upd usd_accumulate split: option.splits if_splits)
qed

lemma is_finite_sanitized: "is_finite (fillna (replace_inf x))"
  by (cases x) (simp_all add: fillna_def replace_inf_def is_finite_def)

lemma model_input_finite: "\<forall>row\<in>set (model_input df). \<forall>x\<in>set row. is_finite x"
  by (auto simp: model_input_def is_finite_sanitized)

lemma rnd_neg_numeral [simp]:
  "(numeral n :: int) < 9007199254740992 \<Longrightarrow> rnd (- numeral n) = Fin (- numeral n)"
  using rnd_of_int[of "- numeral n"] by simp

lemma rnd_neg_one [simp]: "rnd (- 1) = Fin (- 1)"
  using rnd_of_int[of "- 1"] by simp

section \<open>Order of the records\<close>

lemma mset_valid_records:
  "mset raw = mset raw' \<Longrightarrow> mset (valid_records p raw) = mset (valid_records p raw')"
  by (simp add: valid_records_def map_filter_def)

lemma tx_count_mset: "mset vs = mset vs' \<Longrightarrow> tx_count vs w = tx_count vs' w"
  unfolding tx_count_def by (metis mset_filter size_mset)

lemma action_count_mset: "mset vs = mset vs' \<Longrightarrow> action_count vs w a = action_count vs' w a"
  unfolding action_count_def by (metis mset_filter size_mset)

lemma mset_stamps: "mset vs = mset vs' \<Longrightarrow> mset (stamps vs w) = mset (stamps vs' w)"
  by (simp add: stamps_def)

lemma sort_stamps_mset:
  assumes "mset vs = mset vs'"
  shows "sort (stamps vs w) = sort (stamps vs' w)"
proof (rule properties_for_sort)
  show "mset (sort (stamps vs' w)) = mset (stamps vs w)"
    using mset_stamps[OF assms, of w] by simp
  show "sorted (sort (stamps vs' w))" by simp
qed

lemma map_sum_bind_err:
  "map_sum id g (bind_err m k) = bind_err m (\<lambda>x. map_sum id g (k x))"
  by (cases m) simp_all

lemma wallet_features_cong:
  assumes "counters s ''total_tx'' = counters s' ''total_tx''"
    and "counters s ''num_borrow'' = counters s' ''num_borrow''"
    and "counters s ''num_repay'' = counters s' ''num_repay''"
    and "counters s ''num_liquidationcall'' = counters s' ''num_liquidationcall''"
    and "sort (case map_of wts w of None \<Rightarrow> [0] | Some l \<Rightarrow> l)
       = sort (case map_of wts' w of None \<Rightarrow> [0] | Some l \<Rightarrow> l)"
  shows "map_sum id drop_usd (wallet_features wts w s)
       = map_sum id drop_usd (wallet_features wts' w s')"
  unfolding wallet_features_def Let_def map_sum_bind_err assms
  by (simp add: drop_usd_def)

lemma row_of_mset:
  assumes "mset vs = mset vs'"
  shows "map_option (map_sum id drop_usd)
           (row_of (wallet_timestamps (foldl add_record empty_acc vs))
                   (wallet_stats (foldl add_record empty_acc vs)) w)
       = map_option (map_sum id drop_usd)
           (row_of (wallet_timestamps (foldl add_record empty_acc vs'))
                   (wallet_stats (foldl add_record empty_acc vs')) w)"
proof -
  let ?st = "foldl add_record empty_acc vs" and ?st' = "foldl add_record empty_acc vs'"
  have keys: "fst ` set vs = fst ` set vs'"
    using assms by (metis set_mset_mset)
  have dom: "map_of (wallet_stats ?st) w = None \<longleftrightarrow> map_of (wallet_stats ?st') w = None"
    using keys_fold[of vs] keys_fold[of vs'] keys
    by (simp add: map_of_eq_None_iff)
  show ?thesis
  proof (cases "map_of (wallet_stats ?st) w")
    case None
    then show ?thesis using dom by (simp add: row_of_def)
  next
    case (Some s)
    then obtain s' where s': "map_of (wallet_stats ?st') w = Some s'"
      using dom by fastforce
    have key: "w \<in> fst ` set vs"
      using Some keys_fold[of vs] by (metis map_of_eq_None_iff option.distinct(1) set_map)
    have c: "counters s ''total_tx'' = counters s' ''total_tx''"
      "counters s (''num_'' @ a) = counters s' (''num_'' @ a)" for a
      using counters_fold[OF Some] counters_fold[OF s'] tx_count_mset[OF assms]
        action_count_mset[OF assms] by simp_all
    have t: "sort (case map_of (wallet_timestamps ?st) w of None \<Rightarrow> [0] | Some l \<Rightarrow> l)
           = sort (case map_of (wallet_timestamps ?st') w of None \<Rightarrow> [0] | Some l \<Rightarrow> l)"
      using key keys sort_stamps_mset[OF assms, of w] by (simp add: stamps_fold)
    show ?thesis
      using wallet_features_cong[OF c(1) _ _ _ t]
        c(2)[of "''borrow''"] c(2)[of "''repay''"] c(2)[of "''liquidationcall''"]
      by (simp add: row_of_def Some s')
  qed
qed

lemma engineer_features_char:
  assumes "raw \<noteq> []"
  shows "engineer_features p raw =
           (if \<exists>t\<in>set raw. tx_error p t \<noteq> None then Inl OverflowError
            else finish (foldl add_record empty_acc (valid_records p raw)))"
proof (cases "\<exists>t\<in>set raw. tx_error p t \<noteq> None")
  case True
  then show ?thesis using assms scan_Inl[OF True, of empty_acc]
    by (simp add: engineer_features_def)
next
  case False
  then have "\<forall>t\<in>set raw. tx_error p t = None" by simp
  from scan_Inr[OF this, of empty_acc] show ?thesis using assms False
    by (simp add: engineer_features_def finish_def)
qed

lemma features_list_fails:
  assumes r: "\<And>w. map_option (map_sum id drop_usd) (row_of wts ws w)
                  = map_option (map_sum id drop_usd) (row_of wts' ws' w)"
    and d: "distinct (map fst ws)" and d': "distinct (map fst ws')"
    and l: "features_list wts ws = Inl e"
  shows "e = OverflowError \<and> features_list wts' ws' = Inl OverflowError"
proof -
  from features_list_Inl[OF l] obtain w s where
    e: "e = OverflowError" and ws: "(w, s) \<in> set ws"
    and wf: "wallet_features wts w s = Inl OverflowError"
    by auto
  have "map_of ws w = Some s" using ws d by simp
  then have "row_of wts ws w = Some (Inl OverflowError)" by (simp add: row_of_def wf)
  with r[of w] have bad: "row_of wts' ws' w = Some (Inl OverflowError)"
    by (cases "row_of wts' ws' w") (auto simp: map_sum_def split: sum.splits)
  show ?thesis
  proof (cases "features_list wts' ws'")
    case (Inl e')
    then show ?thesis using e features_list_Inl[OF Inl] by simp
  next
    case (Inr fl')
    from features_list_row(2)[OF Inr d', of w OverflowError] bad show ?thesis by simp
  qed
qed

lemma finish_same_but_usd:
  assumes r: "\<And>w. map_option (map_sum id drop_usd)
                    (row_of (wallet_timestamps st) (wallet_stats st) w)
                  = map_option (map_sum id drop_usd)
                    (row_of (wallet_timestamps st') (wallet_stats st') w)"
    and d: "distinct (map fst (wallet_stats st))" and d': "distinct (map fst (wallet_stats st'))"
    and k: "set (map fst (wallet_stats st)) = set (map fst (wallet_stats st'))"
  shows "same_but_usd (finish st) (finish st')"
proof (cases "features_list (wallet_timestamps st) (wallet_stats st)")
  case (Inl e)
  from features_list_fails[OF r d d' Inl] show ?thesis
    by (simp add: same_but_usd_def finish_def Inl)
next
  case (Inr fl)
  show ?thesis
  proof (cases "features_list (wallet_timestamps st') (wallet_stats st')")
    case (Inl e')
    from features_list_fails[OF r[symmetric] d' d Inl] Inr show ?thesis by simp
  next
    case Inr': (Inr fl')
    have keys: "set (map fst fl) = set (map fst fl')"
      using features_list_keys[OF Inr] features_list_keys[OF Inr'] k by simp
    then have empty: "fl = [] \<longleftrightarrow> fl' = []"
      by (metis map_is_Nil_conv set_empty)
    have look: "map_option drop_usd (map_of fl w) = map_option drop_usd (map_of fl' w)" for w
      using r[of w] features_list_row(1)[OF Inr d, of w] features_list_row(1)[OF Inr' d', of w]
      by (auto simp: map_sum_def split: option.splits sum.splits)
    show ?thesis
      using empty look by (simp add: same_but_usd_def finish_def Inr Inr')
  qed
qed

lemma engineer_features_mset:
  assumes "mset raw = mset raw'"
  shows "same_but_usd (engineer_features p raw) (engineer_features p raw')"
proof (cases "raw = []")
  case True
  then have "raw' = []" using assms by (metis mset_zero_iff)
  with True show ?thesis by (simp add: engineer_features_def same_but_usd_def)
next
  case False
  then have ne': "raw' \<noteq> []" using assms by (metis mset_zero_iff)
  have sets: "set raw = set raw'" using assms by (metis set_mset_mset)
  let ?vs = "valid_records p raw" and ?vs' = "valid_records p raw'"
  have m: "mset ?vs = mset ?vs'" by (rule mset_valid_records[OF assms])
  have k: "set (map fst (wallet_stats (foldl add_record empty_acc ?vs)))
         = set (map fst (wallet_stats (foldl add_record empty_acc ?vs')))"
    using keys_fold[of ?vs] keys_fold[of ?vs'] m by (metis set_mset_mset)
  have fin: "same_but_usd (finish (foldl add_record empty_acc ?vs))
               (finish (foldl add_record empty_acc ?vs'))"
    using keys_fold[of ?vs] keys_fold[of ?vs'] k
    by (intro finish_same_but_usd row_of_mset[OF m]) simp_all
  show ?thesis
  proof (cases "\<exists>t\<in>set raw. tx_error p t \<noteq> None")
    case True
    then have t': "\<exists>t\<in>set raw'. tx_error p t \<noteq> None" using sets by simp
    have "engineer_features p raw = Inl OverflowError"
      using engineer_features_char[OF False, of p] True by simp
    moreover have "engineer_features p raw' = Inl OverflowError"
      using engineer_features_char[OF ne', of p] t' by simp
    ultimately show ?thesis by (simp add: same_but_usd_def)
  next
    case no: False
    then have no': "\<not> (\<exists>t\<in>set raw'. tx_error p t \<noteq> None)" using sets by simp
    have "engineer_features p raw = finish (foldl add_record empty_acc ?vs)"
      using engineer_features_char[OF False, of p] no by simp
    moreover have "engineer_features p raw' = finish (foldl add_record empty_acc ?vs')"
      using engineer_features_char[OF ne', of p] no' by simp
    ultimately show ?thesis using fin by simp
  qed
qed

lemma rnd_big_amount: "rnd 9007199254740992000000 = Fin 9007199254740992000000"
  using rnd_representable[of 9007199254740992000000 15625 59] by simp

lemma rnd_two_53: "rnd 9007199254740992 = Fin 9007199254740992"
  using rnd_representable[of 9007199254740992 1 53] by simp

lemma rnd_two_53_plus_1: "rnd 9007199254740993 = Fin 9007199254740992"
proof -
  have "round_half_even (9007199254740993 / 2) = 4503599627370496"
    using round_half_even_cases[of "9007199254740993 / 2" 4503599627370496 "1 / 2"] by simp
  then show ?thesis
    by (simp add: rnd_eval[where e = 53] Let_def)
qed

lemma rnd_two_53_plus_2: "rnd 9007199254740994 = Fin 9007199254740994"
  using rnd_representable[of 9007199254740994 4503599627370497 1] by simp

lemmas big_rnd = rnd_big_amount rnd_two_53 rnd_two_53_plus_1 rnd_two_53_plus_2

lemma big_first_eval:
  "engineer_features no_strings big_first = Inr (deposits_frame (Fin 9007199254740992))"
  by (simp add: big_first_def deposits_frame_def eval_defs big_rnd)

lemma big_last_eval:
  "engineer_features no_strings big_last = Inr (deposits_frame (Fin 9007199254740994))"
  by (simp add: big_last_def deposits_frame_def eval_defs big_rnd)

lemma big_perm: "mset big_first = mset big_last"
  by (simp add: big_first_def big_last_def)

section \<open>The scorer\<close>

lemma scale_factor: "py_int_truediv 1000 (int N_CLUSTERS - 1) = Inr (Fin 250)"
  by (simp add: py_int_truediv_def N_CLUSTERS_def)

lemma map_err_Inr:
  "map_err f xs = Inr ys \<Longrightarrow> list_all2 (\<lambda>x y. f x = Inr y) xs ys"
  by (induction xs arbitrary: ys) (auto simp: bind_err_def split: sum.splits)

lemma map_err_nth:
  assumes "map_err f xs = Inr ys"
  shows "length ys = length xs" and "i < length xs \<Longrightarrow> f (xs ! i) = Inr (ys ! i)"
  using map_err_Inr[OF assms] by (auto simp: list_all2_conv_all_nth)

lemma generate_credit_scores_Inr:
  assumes "generate_credit_scores fit_predict df = Inr out" "index_rows df \<noteq> []"
  shows "\<exists>labels sm scores.
           fit_predict (model_input df) = Inr labels
         \<and> length labels = length (index_rows df)
         \<and> score_mapping (cluster_health_metric df labels) = Inr sm
         \<and> map_err (score_of_label sm (Fin 250)) labels = Inr scores
         \<and> out = df\<lparr>cluster := Some labels, credit_score := Some scores\<rparr>"
proof (cases "fit_predict (model_input df)")
  case (Inl e)
  then show ?thesis using assms by (simp add: generate_credit_scores_def)
next
  case labels: (Inr labels)
  have len: "length labels = length (index_rows df)"
    using assms labels by (simp add: generate_credit_scores_def split: if_splits)
  show ?thesis
  proof (cases "score_mapping (cluster_health_metric df labels)")
    case (Inl e)
    then show ?thesis using assms labels len by (simp add: generate_credit_scores_def)
  next
    case sm: (Inr sm)
    show ?thesis
    proof (cases "map_err (score_of_label sm (Fin 250)) labels")
      case (Inl e)
      then show ?thesis
        using assms labels len sm by (simp add: generate_credit_scores_def scale_factor)
    next
      case (Inr scores)
      then have "out = df\<lparr>cluster := Some labels, credit_score := Some scores\<rparr>"
        using assms labels len sm by (simp add: generate_credit_scores_def scale_factor)
      then show ?thesis using labels len sm Inr by blast
    qed
  qed
qed

lemma chm_keys: "map fst (cluster_health_metric df labels) = sort (remdups labels)"
  by (simp add: cluster_health_metric_def comp_def)

lemma chm_distinct: "distinct (map fst (cluster_health_metric df labels))"
  by (simp add: chm_keys)

lemma score_mapping_Inr:
  assumes "score_mapping chm = Inr sm"
  shows "NaN \<notin> snd ` set chm"
    and "map_of sm c = map_option (\<lambda>h. int (rank_dense (map snd chm) h) - 1) (map_of chm c)"
proof -
  show nan: "NaN \<notin> snd ` set chm" using assms by (auto simp: score_mapping_def split: if_splits)
  have sm: "sm = map (\<lambda>(c, h). (c, int (rank_dense (map snd chm) h) - 1)) chm"
    using assms by (auto simp: score_mapping_def split: if_splits)
  have "map_of (map (\<lambda>(c, h). (c, g h)) xs) c = map_option g (map_of xs c)" for g :: "pyfloat \<Rightarrow> int" and xs
    by (induction xs) auto
  then show "map_of sm c = map_option (\<lambda>h. int (rank_dense (map snd chm) h) - 1) (map_of chm c)"
    unfolding sm by simp
qed

lemma flt_irrefl [simp]: "\<not> flt x x"
  by (cases x) simp_all

lemma flt_trans: "flt x y \<Longrightarrow> flt y z \<Longrightarrow> flt x z"
  by (cases x; cases y; cases z) simp_all

lemma flt_total: "x \<noteq> NaN \<Longrightarrow> y \<noteq> NaN \<Longrightarrow> flt x y \<or> x = y \<or> flt y x"
  by (cases x; cases y) auto

lemma rank_dense_card: "rank_dense hs h = card {h' \<in> set hs. flt h' h} + 1"
  by (simp add: rank_dense_def length_remdups_card_conv)

lemma below_less:
  assumes "finite H" "h \<in> H"
  shows "below H h < card H"
proof -
  have "{h' \<in> H. flt h' h} \<subseteq> H" by auto
  moreover have "h \<notin> {h' \<in> H. flt h' h}" by simp
  ultimately have "{h' \<in> H. flt h' h} \<subset> H" using assms(2) by blast
  then show ?thesis unfolding below_def using assms(1) by (rule psubset_card_mono[rotated])
qed

lemma below_mono:
  assumes "finite H" "h1 \<in> H" "flt h1 h2"
  shows "below H h1 < below H h2"
proof -
  have "{h' \<in> H. flt h' h1} \<subseteq> {h' \<in> H. flt h' h2}"
    using assms(3) by (auto dest: flt_trans)
  moreover have "h1 \<notin> {h' \<in> H. flt h' h1}" by simp
  moreover have "h1 \<in> {h' \<in> H. flt h' h2}" using assms(2,3) by simp
  ultimately have "{h' \<in> H. flt h' h1} \<subset> {h' \<in> H. flt h' h2}" by blast
  moreover have "finite {h' \<in> H. flt h' h2}" using assms(1) by simp
  ultimately show ?thesis unfolding below_def by (rule psubset_card_mono[rotated])
qed

lemma below_inj:
  assumes "finite H" "NaN \<notin> H"
  shows "inj_on (below H) H"
proof (rule inj_onI)
  fix x y assume xy: "x \<in> H" "y \<in> H" "below H x = below H y"
  show "x = y"
  proof (rule ccontr)
    assume "x \<noteq> y"
    moreover have "x \<noteq> NaN" "y \<noteq> NaN" using xy assms(2) by auto
    ultimately have "flt x y \<or> flt y x" using flt_total by blast
    then show False
      using below_mono[OF assms(1) xy(1), of y] below_mono[OF assms(1) xy(2), of x] xy(3)
      by auto
  qed
qed

lemma below_image:
  assumes "finite H" "NaN \<notin> H"
  shows "below H ` H = {..<card H}"
proof (rule card_subset_eq)
  show "finite {..<card H}" by simp
  show "below H ` H \<subseteq> {..<card H}" using below_less[OF assms(1)] by auto
  show "card (below H ` H) = card {..<card H}"
    using card_image[OF below_inj[OF assms]] by simp
qed

lemma astype_scaled:
  assumes "0 \<le> r" "r \<le> 4"
  shows "astype_int (fmul (Fin (of_int r)) (Fin 250)) = Inr (250 * r)"
proof -
  have "\<bar>r * 250\<bar> < 2 ^ 53" using assms by simp
  from rnd_of_int[OF this] have r: "rnd (of_int r * 250) = Fin (of_int r * 250)"
    by simp
  have "\<lfloor>(of_int (r * 250) :: rat)\<rfloor> = r * 250" by (rule floor_of_int)
  then have fl: "\<lfloor>(of_int r :: rat) * 250\<rfloor> = r * 250" by simp
  have pos: "(0::rat) \<le> of_int r * 250" using assms(1) by simp
  show ?thesis
    by (simp add: astype_int_def r fl pos)
qed

lemma card_labels:
  assumes "\<forall>l\<in>set labels. l < N_CLUSTERS"
  shows "card (set labels) \<le> N_CLUSTERS"
proof -
  have "set labels \<subseteq> {..<N_CLUSTERS}" using assms by auto
  from card_mono[OF _ this] show ?thesis by simp
qed

lemma card_health_values: "card (health_values df labels) \<le> card (set labels)"
proof -
  have "card (health_values df labels) \<le> length (cluster_health_metric df labels)"
    unfolding health_values_def by (metis card_image_le card_length le_trans List.finite_set)
  also have "\<dots> = length (map fst (cluster_health_metric df labels))" by simp
  also have "\<dots> = card (set labels)"
    unfolding chm_keys by (simp add: length_remdups_card_conv)
  finally show ?thesis .
qed

lemma health_of_in:
  assumes "l \<in> set labels"
  shows "map_of (cluster_health_metric df labels) l = Some (health_of df labels l)"
    and "health_of df labels l \<in> health_values df labels"
proof -
  have "l \<in> set (map fst (cluster_health_metric df labels))"
    using assms by (simp add: chm_keys)
  then obtain h where h: "map_of (cluster_health_metric df labels) l = Some h"
    by (metis map_of_eq_None_iff not_Some_eq set_map)
  then show "map_of (cluster_health_metric df labels) l = Some (health_of df labels l)"
    by (simp add: health_of_def)
  from h have "(l, h) \<in> set (cluster_health_metric df labels)" by (rule map_of_SomeD)
  then show "health_of df labels l \<in> health_values df labels"
    using h by (force simp: health_of_def health_values_def)
qed

lemma health_values_image: "health_values df labels = health_of df labels ` set labels"
proof
  show "health_of df labels ` set labels \<subseteq> health_values df labels"
    using health_of_in(2) by auto
  show "health_values df labels \<subseteq> health_of df labels ` set labels"
  proof
    fix h assume "h \<in> health_values df labels"
    then obtain c where c: "(c, h) \<in> set (cluster_health_metric df labels)"
      by (auto simp: health_values_def)
    then have "map_of (cluster_health_metric df labels) c = Some h"
      using chm_distinct by simp
    moreover have "c \<in> set labels"
      using c chm_keys[of df labels] by (metis fst_conv image_eqI set_map set_remdups set_sort)
    ultimately show "h \<in> health_of df labels ` set labels"
      by (auto simp: health_of_def image_iff intro!: bexI[of _ c])
  qed
qed

lemma score_of_row:
  assumes sm: "score_mapping (cluster_health_metric df labels) = Inr sm"
    and l: "l \<in> set labels" and n: "\<forall>l\<in>set labels. l < N_CLUSTERS"
  shows "score_of_label sm (Fin 250) l
           = Inr (250 * int (below (health_values df labels) (health_of df labels l)))"
proof -
  let ?H = "health_values df labels" and ?h = "health_of df labels l"
  have fin: "finite ?H" by (simp add: health_values_def)
  have "below ?H ?h < card ?H" using below_less[OF fin health_of_in(2)[OF l]] .
  also have "\<dots> \<le> 5"
    using card_health_values[of df labels] card_labels[OF n] by (simp add: N_CLUSTERS_def)
  finally have small: "int (below ?H ?h) \<le> 4" by simp
  have "map_of sm l = Some (int (rank_dense (map snd (cluster_health_metric df labels)) ?h) - 1)"
    using score_mapping_Inr(2)[OF sm, of l] health_of_in(1)[OF l] by simp
  also have "int (rank_dense (map snd (cluster_health_metric df labels)) ?h) - 1 = int (below ?H ?h)"
    by (simp add: rank_dense_card below_def health_values_def)
  finally show ?thesis
    using astype_scaled[OF _ small] by (simp add: score_of_label_def)
qed

lemma rnd_half: "rnd (1 / 2) = Fin (1 / 2)"
  using rnd_representable[of "1 / 2" 1 "- 1"] by (simp add: power_int_minus)

lemmas scorer_defs =
  generate_credit_scores_def cluster_health_metric_def series_mean_def group_values_def
  score_mapping_def rank_dense_def score_of_label_def astype_int_def scale_factor mk_row_def

lemma health_graded:
  "cluster_health_metric graded_frame [0, 0, 1, 2, 3] =
     [(0, Fin (1 / 2)), (1, Fin (- 1)), (2, Fin 2), (3, Fin 3)]"
  by (simp add: graded_frame_def scorer_defs rnd_half)

lemma graded_rows: "index_rows graded_frame \<noteq> []" "length (index_rows graded_frame) = 5"
  by (simp_all add: graded_frame_def)

lemma graded_eval:
  "generate_credit_scores shared_labels graded_frame =
     Inr (graded_frame\<lparr>cluster := Some [0, 0, 1, 2, 3],
                       credit_score := Some [250, 250, 0, 500, 750]\<rparr>)"
  by (simp add: generate_credit_scores_def health_graded shared_labels_def graded_rows
      score_mapping_def rank_dense_def score_of_label_def astype_int_def scale_factor
      del: One_nat_def)

lemma health_deposit_only:
  "cluster_health_metric deposit_only_frame [0, 1, 2, 3, 4] =
     [(0, Fin 1), (1, Fin 1), (2, Fin 1), (3, Fin 1), (4, Fin 1)]"
  by (simp add: deposit_only_frame_def scorer_defs)

lemma deposit_only_rows:
  "index_rows deposit_only_frame \<noteq> []" "length (index_rows deposit_only_frame) = 5"
  by (simp_all add: deposit_only_frame_def)

lemma deposit_only_eval:
  "generate_credit_scores singleton_labels deposit_only_frame =
     Inr (deposit_only_frame\<lparr>cluster := Some [0, 1, 2, 3, 4],
                             credit_score := Some [0, 0, 0, 0, 0]\<rparr>)"
  by (simp add: generate_credit_scores_def health_deposit_only singleton_labels_def
      deposit_only_rows score_mapping_def rank_dense_def score_of_label_def astype_int_def
      scale_factor del: One_nat_def)

lemma scored_rows:
  assumes "generate_credit_scores fit_predict df = Inr out" "index_rows df \<noteq> []"
  shows "\<exists>ls sm cs.
           fit_predict (model_input df) = Inr ls
         \<and> score_mapping (cluster_health_metric df ls) = Inr sm
         \<and> cluster out = Some ls \<and> credit_score out = Some cs
         \<and> index_rows out = index_rows df
         \<and> length ls = length (index_rows df) \<and> length cs = length ls
         \<and> (\<forall>i<length ls. score_of_label sm (Fin 250) (ls ! i) = Inr (cs ! i))"
proof -
  from generate_credit_scores_Inr[OF assms] obtain labels sm scores where
    a: "fit_predict (model_input df) = Inr labels"
      "length labels = length (index_rows df)"
      "score_mapping (cluster_health_metric df labels) = Inr sm"
      "map_err (score_of_label sm (Fin 250)) labels = Inr scores"
      "out = df\<lparr>cluster := Some labels, credit_score := Some scores\<rparr>"
    by (elim exE conjE)
  have "cluster out = Some labels" "credit_score out = Some scores"
    "index_rows out = index_rows df"
    by (simp_all add: a(5))
  moreover have "length scores = length labels"
    by (rule map_err_nth(1)[OF a(4)])
  moreover have "\<forall>i<length labels. score_of_label sm (Fin 250) (labels ! i) = Inr (scores ! i)"
    using map_err_nth(2)[OF a(4)] by blast
  ultimately show ?thesis using a(1,2,3) by blast
qed

lemma scores_by_rank:
  assumes "generate_credit_scores fit_predict df = Inr out" "index_rows df \<noteq> []"
    and "\<forall>ls. fit_predict (model_input df) = Inr ls \<longrightarrow> (\<forall>l\<in>set ls. l < N_CLUSTERS)"
  shows "\<exists>ls cs.
           cluster out = Some ls \<and> credit_score out = Some cs \<and> length cs = length ls
         \<and> length ls = length (index_rows out)
         \<and> NaN \<notin> health_values df ls
         \<and> card (health_values df ls) \<le> N_CLUSTERS
         \<and> (\<forall>i<length ls.
               cs ! i = 250 * int (below (health_values df ls) (health_of df ls (ls ! i))))"
proof -
  from scored_rows[OF assms(1,2)] obtain ls sm cs where
    a: "fit_predict (model_input df) = Inr ls"
      "score_mapping (cluster_health_metric df ls) = Inr sm"
      "cluster out = Some ls" "credit_score out = Some cs"
      "index_rows out = index_rows df"
      "length ls = length (index_rows df)" "length cs = length ls"
      "\<forall>i<length ls. score_of_label sm (Fin 250) (ls ! i) = Inr (cs ! i)"
    by (elim exE conjE)
  have n: "\<forall>l\<in>set ls. l < N_CLUSTERS" using assms(3) a(1) by blast
  have nan: "NaN \<notin> health_values df ls"
    using score_mapping_Inr(1)[OF a(2)] by (simp add: health_values_def)
  have card: "card (health_values df ls) \<le> N_CLUSTERS"
    using card_health_values[of df ls] card_labels[OF n] by simp
  have "cs ! i = 250 * int (below (health_values df ls) (health_of df ls (ls ! i)))"
    if "i < length ls" for i
  proof -
    have "ls ! i \<in> set ls" using that by simp
    from score_of_row[OF a(2) this n] a(8) that show ?thesis by simp
  qed
  then have "\<forall>i<length ls.
      cs ! i = 250 * int (below (health_values df ls) (health_of df ls (ls ! i)))"
    by blast
  moreover have "length ls = length (index_rows out)" using a(5,6) by simp
  ultimately show ?thesis using a(3,4,7) nan card by blast
qed

lemma below_bottom:
  assumes "\<forall>h'\<in>H. \<not> flt h' h"
  shows "below H h = 0"
proof -
  have "{h' \<in> H. flt h' h} = {}" using assms by blast
  then show ?thesis by (simp only: below_def card.empty)
qed

lemma below_top:
  assumes "finite H" "NaN \<notin> H" "h \<in> H" "\<forall>h'\<in>H. \<not> flt h h'"
  shows "int (below H h) = int (card H) - 1"
proof -
  have "{h' \<in> H. flt h' h} = H - {h}"
  proof (intro set_eqI iffI)
    fix x assume "x \<in> {h' \<in> H. flt h' h}"
    then show "x \<in> H - {h}" by auto
  next
    fix x assume x: "x \<in> H - {h}"
    then have "x \<noteq> NaN" "h \<noteq> NaN" using assms(2,3) by auto
    from flt_total[OF this] x assms(4) show "x \<in> {h' \<in> H. flt h' h}" by auto
  qed
  then have "below H h = card (H - {h})" by (simp add: below_def)
  also have "\<dots> = card H - 1" using assms(1,3) by simp
  finally have "below H h = card H - 1" .
  moreover have "1 \<le> card H" using assms(1,3) by (metis One_nat_def Suc_leI card_gt_0_iff empty_iff)
  ultimately show ?thesis by simp
qed

section \<open>Records that are skipped\<close>

lemma scenario_valid:
  "valid_records str2f scenario_records =
     [(''W1'', ''borrow'', 1000, Fin 50), (''W1'', ''repay'', 2000, Fin 50)]"
  by (simp add: valid_records_def map_filter_simps accepted_def scenario_records_def eval_defs)

lemma invalid_record_skipped:
  assumes "userWallet t = None \<or> action t = None \<or> timestamp t = None
           \<or> usd_value p t \<in> {Inl ValueError, Inl KeyError, Inl TypeError}"
  shows "process_tx p st t = Inr st"
  using assms by (auto simp: process_tx_def lower_def Let_def split: option.splits)

section \<open>The USD total and the model matrix\<close>

text \<open>
  The entry \<^verbatim>\<open>total_usd_all_actions\<close> of a wallet after the scan is the float sum, from 0.0
  and in arrival order, of the values that its accepted records add to it.
\<close>

lemma usd_total_accumulate:
  "usd_totals (accumulate a v s) ''total_usd_all_actions'' =
     (if a = ''all_actions''
      then fadd (fadd (usd_totals s ''total_usd_all_actions'') v) v
      else fadd (usd_totals s ''total_usd_all_actions'') v)"
  by (simp add: accumulate_def Let_def)

lemma usd_terms_snoc:
  "usd_terms (vs @ [(w', a, ts, v)]) w =
     usd_terms vs w @ (if w' = w then (if a = ''all_actions'' then [v, v] else [v]) else [])"
  by (simp add: usd_terms_def)

lemma usd_total_fold:
  "(case map_of (wallet_stats (foldl add_record empty_acc vs)) w of
      None \<Rightarrow> Fin 0 | Some s \<Rightarrow> usd_totals s ''total_usd_all_actions'')
   = foldl fadd (Fin 0) (usd_terms vs w)"
proof (induction vs rule: rev_induct)
  case Nil
  then show ?case by (simp add: empty_acc_def usd_terms_def)
next
  case (snoc x xs)
  obtain w' a ts v where x: "x = (w', a, ts, v)" by (cases x)
  show ?case
  proof (cases "w' = w")
    case False
    then show ?thesis using snoc by (simp add: x map_of_dict_upd usd_terms_snoc)
  next
    case True
    show ?thesis
    proof (cases "map_of (wallet_stats (foldl add_record empty_acc xs)) w")
      case None
      then show ?thesis using snoc True
        by (simp add: x map_of_dict_upd usd_terms_snoc usd_total_accumulate new_stats_def)
    next
      case (Some s)
      then show ?thesis using snoc True
        by (simp add: x map_of_dict_upd usd_terms_snoc usd_total_accumulate)
    qed
  qed
qed

lemma usd_terms_plain:
  assumes "\<forall>(w', a, ts, v)\<in>set vs. w' = w \<longrightarrow> a \<noteq> ''all_actions''"
  shows "usd_terms vs w = usd_values vs w"
  using assms by (induction vs) (auto simp: usd_terms_def usd_values_def)

lemma usd_terms_fnonneg:
  assumes "\<forall>(w', a, ts, v)\<in>set vs. w' = w \<longrightarrow> fnonneg v"
  shows "\<forall>x\<in>set (usd_terms vs w). fnonneg x"
  using assms by (induction vs) (auto simp: usd_terms_def split: if_splits)

lemma foldl_fadd_fnonneg:
  "fnonneg a \<Longrightarrow> \<forall>x\<in>set xs. fnonneg x \<Longrightarrow> fnonneg (foldl fadd a xs)"
  by (induction xs arbitrary: a) (simp_all add: fadd_fnonneg)

text \<open>
  The matrix \<^verbatim>\<open>X\<close>: \<^verbatim>\<open>replace\<close> and \<^verbatim>\<open>fillna\<close> together turn a cell that is infinite or NaN
  into 0 and leave every other cell as it is.
\<close>

lemma sanitized_cell: "fillna (replace_inf x) = (if is_finite x then x else Fin 0)"
  by (cases x) (simp_all add: fillna_def replace_inf_def is_finite_def)

lemma model_input_rows:
  "model_input df =
     map (\<lambda>(w, f). map (\<lambda>x. if is_finite x then x else Fin 0)
                      [repay_borrow_ratio_count f, liquidation_ratio f, active_days f,
                       total_usd_all_actions f, avg_time_between_tx_days f])
         (index_rows df)"
  by (simp add: model_input_def MODEL_FEATURE_COLS_def sanitized_cell)

lemma scenario_usd_terms:
  "usd_terms (valid_records str2f scenario_records) ''W1'' = [Fin 50, Fin 50]"
  by (simp add: scenario_valid usd_terms_def)

lemma scenario_usd_values:
  "usd_values (valid_records str2f scenario_records) ''W1'' = [Fin 50, Fin 50]"
  by (simp add: scenario_valid usd_values_def)

lemma scenario_model_input:
  "model_input scenario_frame =
     [[Fin 1, Fin 0, Fin (3335999723978145 / 288230376151711744), Fin 100,
       Fin (3335999723978145 / 576460752303423488)]]"
  by (simp add: model_input_rows scenario_frame_def scenario_row_def is_finite_def)

lemma signed_model_input:
  "model_input signed_frame =
     [[Fin 1, Fin 0, Fin 0, Fin (- 1), Fin 0],
      [Fin 1, Fin 0, Fin 0, Fin 0, Fin 0]]"
  by (simp add: model_input_rows signed_frame_def is_finite_def)

text \<open>
  A record whose action is \<^verbatim>\<open>all_actions\<close> is added to the total twice: one deposit of 1 USD
  under this action gives the total 2.0.
\<close>

lemma all_actions_counted_twice:
  "engineer_features str2f [mk_tx ''W1'' ''all_actions'' 1000 1000000] =
     Inr \<lparr>index_rows =
            [(''W1'',
              \<lparr>total_tx = 1, total_usd_all_actions = Fin 2, repay_borrow_ratio_count = Fin 1,
               num_liquidations = 0, liquidation_ratio = Fin 0, active_days = Fin 0,
               avg_time_between_tx_days = Fin 0\<rparr>)],
          cluster = None, credit_score = None\<rparr>"
  by (simp add: eval_defs)

section \<open>Actions and their counts\<close>

text \<open>
  In terms of the records that the code accepts, \<^verbatim>\<open>repay_borrow_ratio_count\<close> is 1.0 for a
  wallet without an accepted borrow and the float quotient of the accepted repays by the
  accepted borrows otherwise.
\<close>

lemma ratio_of_accepted_counts:
  assumes "engineer_features str2f raw = Inr df" and "(w, f) \<in> set (index_rows df)"
  shows "repay_borrow_ratio_count f =
           (if action_count (valid_records str2f raw) w ''borrow'' = 0 then Fin 1
            else rnd (of_nat (action_count (valid_records str2f raw) w ''repay'')
                      / of_nat (action_count (valid_records str2f raw) w ''borrow'')))"
proof -
  from engineer_features_row[OF assms] obtain s where
    s: "map_of (wallet_stats (foldl add_record empty_acc (valid_records str2f raw))) w = Some s"
    and f: "wallet_features (wallet_timestamps (foldl add_record empty_acc (valid_records str2f raw))) w s = Inr f"
    by blast
  have b: "counters s ''num_borrow'' = action_count (valid_records str2f raw) w ''borrow''"
    using counters_fold(2)[OF s, of "''borrow''"] by simp
  have r: "counters s ''num_repay'' = action_count (valid_records str2f raw) w ''repay''"
    using counters_fold(2)[OF s, of "''repay''"] by simp
  show ?thesis
    using wallet_features_Inr(4)[OF f] by (simp add: b r)
qed

text \<open>
  The action is lower-cased before it is counted: a single record with the action
  \<^verbatim>\<open>Borrow\<close> is a borrow for the code, as it is for the specification, and the wallet's
  ratio is \<open>0 / 1\<close>.
\<close>

lemma capital_action_lowered:
  "engineer_features str2f [mk_tx ''W1'' ''Borrow'' 1000 50000000] =
     Inr \<lparr>index_rows =
            [(''W1'',
              \<lparr>total_tx = 1, total_usd_all_actions = Fin 50, repay_borrow_ratio_count = Fin 0,
               num_liquidations = 0, liquidation_ratio = Fin 0, active_days = Fin 0,
               avg_time_between_tx_days = Fin 0\<rparr>)],
          cluster = None, credit_score = None\<rparr>"
  by (simp add: eval_defs)

lemma capital_action_counted:
  "spec_action_count str2f [mk_tx ''W1'' ''Borrow'' 1000 50000000] ''W1'' ''borrow'' = 1"
  by (simp add: spec_action_count_def spec_valid_def spec_numeric_def same_action_def
      upper_char_def mk_tx_def)

text \<open>
  A borrow at timestamp 0 followed by a deposit: the specification counts one valid borrow
  and no repay, the code skips the borrow.
\<close>

lemma borrow_at_zero_spec_counts:
  "spec_action_count str2f borrow_at_zero ''W1'' ''borrow'' = 1"
  "spec_action_count str2f borrow_at_zero ''W1'' ''repay'' = 0"
  by (simp_all add: spec_action_count_def spec_valid_def spec_numeric_def same_action_def
      upper_char_def borrow_at_zero_def mk_tx_def)

lemma borrow_at_zero_eval:
  "engineer_features str2f borrow_at_zero =
     Inr \<lparr>index_rows =
            [(''W1'',
              \<lparr>total_tx = 1, total_usd_all_actions = Fin 100, repay_borrow_ratio_count = Fin 1,
               num_liquidations = 0, liquidation_ratio = Fin 0, active_days = Fin 0,
               avg_time_between_tx_days = Fin 0\<rparr>)],
          cluster = None, credit_score = None\<rparr>"
  by (simp add: borrow_at_zero_def eval_defs)

section \<open>Claims\<close>

text \<open>
  C1: on the three records of the scenario the deposit at timestamp 0 fails the truthiness
  test and is skipped, so wallet W1 gets \<open>total_tx = 2\<close> and \<open>active_days\<close> is the float
  \<open>1000 / 86400\<close>, where the scenario expects \<open>total_tx = 3\<close> and \<open>2000 / 86400\<close>. The
  other three features have the expected values.
\<close>

theorem scenario_features:
  "engineer_features str2f scenario_records =
     Inr \<lparr>index_rows =
            [(''W1'',
              \<lparr>total_tx = 2, total_usd_all_actions = Fin 100, repay_borrow_ratio_count = Fin 1,
               num_liquidations = 0, liquidation_ratio = Fin 0,
               active_days = Fin (3335999723978145 / 288230376151711744),
               avg_time_between_tx_days = Fin (3335999723978145 / 576460752303423488)\<rparr>)],
          cluster = None, credit_score = None\<rparr>
   \<and> py_int_truediv 1000 86400 = Inr (Fin (3335999723978145 / 288230376151711744))
   \<and> py_int_truediv 2000 86400 = Inr (Fin (3335999723978145 / 144115188075855872))"
  using scenario_eval[of str2f]
  by (simp add: scenario_frame_def scenario_row_def py_int_truediv_def rnd_days rnd_claimed_days)

text \<open>
  C2, as stated, fails. Five wallets with one deposit each, which differ in their totals
  only, in five clusters of their own: every cluster has the composite health score 1.0, the
  dense rank of each is 1, and every wallet, so also the one in the cluster with the highest
  health score, gets the credit score 0 and none gets 1000.
\<close>

theorem tied_clusters_score_zero:
  "generate_credit_scores singleton_labels deposit_only_frame =
     Inr (deposit_only_frame\<lparr>cluster := Some [0, 1, 2, 3, 4],
                             credit_score := Some [0, 0, 0, 0, 0]\<rparr>)
   \<and> cluster_health_metric deposit_only_frame [0, 1, 2, 3, 4] =
       [(0, Fin 1), (1, Fin 1), (2, Fin 1), (3, Fin 1), (4, Fin 1)]
   \<and> 1000 \<notin> set [0, 0, 0, 0, 0 :: int]"
  using deposit_only_eval health_deposit_only by simp

text \<open>
  C2, as amended: the credit score of a row is 250 times the number of distinct composite
  health scores, among the clusters that occur, below the score of its cluster. So a cluster
  with the lowest health score gets 0, a cluster with the highest gets \<open>250 * (d - 1)\<close> for
  the number \<open>d \<le> 5\<close> of distinct health scores, and the credit scores that occur are
  exactly \<open>0, 250, \<dots>, 250 * (d - 1)\<close>: the highest is 1000 when the five clusters all occur
  with five different health scores, and only then.
\<close>

theorem rank_scaled_scores:
  assumes "generate_credit_scores fit_predict df = Inr out" and "index_rows df \<noteq> []"
    and "\<forall>ls. fit_predict (model_input df) = Inr ls \<longrightarrow> (\<forall>l\<in>set ls. l < N_CLUSTERS)"
  shows "\<exists>ls cs. cluster out = Some ls \<and> credit_score out = Some cs \<and> length cs = length ls
     \<and> (\<forall>i<length ls.
           cs ! i = 250 * int (below (health_values df ls) (health_of df ls (ls ! i))))
     \<and> (\<forall>i<length ls. (\<forall>h\<in>health_values df ls. \<not> flt h (health_of df ls (ls ! i)))
           \<longrightarrow> cs ! i = 0)
     \<and> (\<forall>i<length ls. (\<forall>h\<in>health_values df ls. \<not> flt (health_of df ls (ls ! i)) h)
           \<longrightarrow> cs ! i = 250 * (int (card (health_values df ls)) - 1))
     \<and> set cs = (\<lambda>k. 250 * int k) ` {..<card (health_values df ls)}
     \<and> card (health_values df ls) \<le> N_CLUSTERS"
proof -
  from scores_by_rank[OF assms] obtain ls cs where
    a: "cluster out = Some ls" "credit_score out = Some cs" "length cs = length ls"
      "length ls = length (index_rows out)"
      "NaN \<notin> health_values df ls"
      "card (health_values df ls) \<le> N_CLUSTERS"
      "\<forall>i<length ls.
         cs ! i = 250 * int (below (health_values df ls) (health_of df ls (ls ! i)))"
    by (elim exE conjE)
  let ?H = "health_values df ls"
  let ?h = "health_of df ls"
  have fin: "finite ?H" by (simp add: health_values_def)
  have mem: "?h (ls ! i) \<in> ?H" if "i < length ls" for i
    using health_of_in(2)[of "ls ! i" ls df] that by simp
  have low: "cs ! i = 0" if "i < length ls" "\<forall>h\<in>?H. \<not> flt h (?h (ls ! i))" for i
    using a(7) that(1) below_bottom[OF that(2)] by simp
  have high: "cs ! i = 250 * (int (card ?H) - 1)"
    if "i < length ls" "\<forall>h\<in>?H. \<not> flt (?h (ls ! i)) h" for i
    using a(7) that(1) below_top[OF fin a(5) mem[OF that(1)] that(2)] by simp
  have "set cs = (\<lambda>i. cs ! i) ` {..<length cs}"
    by (auto simp: set_conv_nth)
  also have "\<dots> = (\<lambda>i. 250 * int (below ?H (?h (ls ! i)))) ` {..<length ls}"
    using a(7) by (simp add: a(3))
  also have "\<dots> = (\<lambda>k. 250 * int k) ` below ?H ` ?h ` (\<lambda>i. ls ! i) ` {..<length ls}"
    by (simp add: image_image)
  also have "(\<lambda>i. ls ! i) ` {..<length ls} = set ls"
    by (auto simp: set_conv_nth)
  also have "?h ` set ls = ?H" by (rule health_values_image[symmetric])
  also have "below ?H ` ?H = {..<card ?H}" by (rule below_image[OF fin a(5)])
  finally have spaced: "set cs = (\<lambda>k. 250 * int k) ` {..<card ?H}" .
  show ?thesis
    using a(1,2,3,6,7) low high spaced by blast
qed

theorem rank_scaled_scores_witness:
  "generate_credit_scores shared_labels graded_frame =
     Inr (graded_frame\<lparr>cluster := Some [0, 0, 1, 2, 3],
                       credit_score := Some [250, 250, 0, 500, 750]\<rparr>)
   \<and> index_rows graded_frame \<noteq> []
   \<and> list_all (\<lambda>l. l < N_CLUSTERS) [0, 0, 1, 2, 3]
   \<and> health_values graded_frame [0, 0, 1, 2, 3] = {Fin (1 / 2), Fin (- 1), Fin 2, Fin 3}
   \<and> health_of graded_frame [0, 0, 1, 2, 3] ([0, 0, 1, 2, 3] ! 2) = Fin (- 1)
   \<and> health_of graded_frame [0, 0, 1, 2, 3] ([0, 0, 1, 2, 3] ! 4) = Fin 3
   \<and> [250, 250, 0, 500, 750 :: int] ! 2 = 0
   \<and> [250, 250, 0, 500, 750 :: int] ! 4
       = 250 * (int (card (health_values graded_frame [0, 0, 1, 2, 3])) - 1)
   \<and> set [250, 250, 0, 500, 750 :: int]
       = (\<lambda>k. 250 * int k) ` {..<card (health_values graded_frame [0, 0, 1, 2, 3])}
   \<and> card (health_values graded_frame [0, 0, 1, 2, 3]) \<le> N_CLUSTERS"
proof -
  let ?out = "graded_frame\<lparr>cluster := Some [0, 0, 1, 2, 3],
                            credit_score := Some [250, 250, 0, 500, 750]\<rparr>"
  let ?ls = "[0, 0, 1, 2, 3 :: nat]"
  have h3: "\<forall>ls. shared_labels (model_input graded_frame) = Inr ls \<longrightarrow>
              (\<forall>l\<in>set ls. l < N_CLUSTERS)"
    by (simp add: shared_labels_def N_CLUSTERS_def)
  have H: "health_values graded_frame ?ls = {Fin (1 / 2), Fin (- 1), Fin 2, Fin 3}"
    unfolding health_values_def health_graded by simp
  have lo: "health_of graded_frame ?ls (?ls ! 2) = Fin (- 1)"
    unfolding health_of_def health_graded by simp
  have hi: "health_of graded_frame ?ls (?ls ! 4) = Fin 3"
    unfolding health_of_def health_graded by simp
  have bottom: "\<forall>h\<in>health_values graded_frame ?ls. \<not> flt h (health_of graded_frame ?ls (?ls ! 2))"
    unfolding H lo by simp
  have top: "\<forall>h\<in>health_values graded_frame ?ls. \<not> flt (health_of graded_frame ?ls (?ls ! 4)) h"
    unfolding H hi by simp
  from rank_scaled_scores[OF graded_eval graded_rows(1) h3] obtain ls cs where
    a: "cluster ?out = Some ls" "credit_score ?out = Some cs"
    and low: "\<forall>i<length ls. (\<forall>h\<in>health_values graded_frame ls.
                 \<not> flt h (health_of graded_frame ls (ls ! i))) \<longrightarrow> cs ! i = 0"
    and high: "\<forall>i<length ls. (\<forall>h\<in>health_values graded_frame ls.
                 \<not> flt (health_of graded_frame ls (ls ! i)) h)
                 \<longrightarrow> cs ! i = 250 * (int (card (health_values graded_frame ls)) - 1)"
    and spaced: "set cs = (\<lambda>k. 250 * int k) ` {..<card (health_values graded_frame ls)}"
    and card: "card (health_values graded_frame ls) \<le> N_CLUSTERS"
    by (elim exE conjE)
  have ls: "ls = ?ls" and cs: "cs = [250, 250, 0, 500, 750]"
    using a by simp_all
  have c2: "cs ! 2 = 0"
    using low[rule_format, of 2] bottom unfolding ls by simp
  have c4: "cs ! 4 = 250 * (int (card (health_values graded_frame ?ls)) - 1)"
    using high[rule_format, of 4] top unfolding ls by simp
  have l: "list_all (\<lambda>l. l < N_CLUSTERS) ?ls" by (simp add: N_CLUSTERS_def)
  show ?thesis
    using graded_eval graded_rows(1) l H lo hi c2 c4 spaced card unfolding ls cs
    by (intro conjI)
qed

text \<open>
  C3: with \<open>N_CLUSTERS = 5\<close> and cluster labels below 5, as \<^verbatim>\<open>KMeans(n_clusters=5)\<close>
  returns them, every credit score of the returned table is one of 0, 250, 500, 750 and
  1000, and so lies between 0 and 1000.
\<close>

theorem credit_score_values:
  assumes "generate_credit_scores fit_predict df = Inr out" and "index_rows df \<noteq> []"
    and "\<forall>ls. fit_predict (model_input df) = Inr ls \<longrightarrow> (\<forall>l\<in>set ls. l < N_CLUSTERS)"
  shows "\<exists>cs. credit_score out = Some cs \<and> length cs = length (index_rows out)
           \<and> (\<forall>c\<in>set cs. c \<in> {0, 250, 500, 750, 1000} \<and> 0 \<le> c \<and> c \<le> 1000)"
proof -
  from scores_by_rank[OF assms] obtain ls cs where
    a: "cluster out = Some ls" "credit_score out = Some cs" "length cs = length ls"
      "length ls = length (index_rows out)"
      "NaN \<notin> health_values df ls"
      "card (health_values df ls) \<le> N_CLUSTERS"
      "\<forall>i<length ls.
         cs ! i = 250 * int (below (health_values df ls) (health_of df ls (ls ! i)))"
    by (elim exE conjE)
  have fin: "finite (health_values df ls)" by (simp add: health_values_def)
  have "c \<in> {0, 250, 500, 750, 1000}" if "c \<in> set cs" for c
  proof -
    from that obtain i where i: "i < length cs" "cs ! i = c" by (auto simp: in_set_conv_nth)
    then have il: "i < length ls" using a(3) by simp
    define k where "k = below (health_values df ls) (health_of df ls (ls ! i))"
    have "ls ! i \<in> set ls" using il by simp
    from below_less[OF fin health_of_in(2)[OF this]] a(6)
    have "k < 5" by (simp add: N_CLUSTERS_def k_def)
    then have "k = 0 \<or> k = 1 \<or> k = 2 \<or> k = 3 \<or> k = 4" by arith
    moreover have "c = 250 * int k" using a(7) il i(2) by (simp add: k_def)
    ultimately show ?thesis by auto
  qed
  then have "\<forall>c\<in>set cs. c \<in> {0, 250, 500, 750, 1000} \<and> 0 \<le> c \<and> c \<le> 1000"
    by fastforce
  then show ?thesis using a(2,3,4) by simp
qed

theorem credit_score_values_witness:
  "generate_credit_scores shared_labels graded_frame =
     Inr (graded_frame\<lparr>cluster := Some [0, 0, 1, 2, 3],
                       credit_score := Some [250, 250, 0, 500, 750]\<rparr>)
   \<and> index_rows graded_frame \<noteq> []
   \<and> list_all (\<lambda>l. l < N_CLUSTERS) [0, 0, 1, 2, 3]
   \<and> list_all (\<lambda>c. c \<in> {0, 250, 500, 750, 1000} \<and> 0 \<le> c \<and> c \<le> 1000)
        [250, 250, 0, 500, 750 :: int]"
proof -
  let ?out = "graded_frame\<lparr>cluster := Some [0, 0, 1, 2, 3],
                            credit_score := Some [250, 250, 0, 500, 750]\<rparr>"
  have h3: "\<forall>ls. shared_labels (model_input graded_frame) = Inr ls \<longrightarrow>
              (\<forall>l\<in>set ls. l < N_CLUSTERS)"
    by (simp add: shared_labels_def N_CLUSTERS_def)
  from credit_score_values[OF graded_eval graded_rows(1) h3] obtain cs where
    a: "credit_score ?out = Some cs"
    and b: "\<forall>c\<in>set cs. c \<in> {0, 250, 500, 750, 1000} \<and> 0 \<le> c \<and> c \<le> 1000"
    by blast
  have cs: "cs = [250, 250, 0, 500, 750]" using a by simp
  from b have "list_all (\<lambda>c. c \<in> {0, 250, 500, 750, 1000} \<and> 0 \<le> c \<and> c \<le> 1000) cs"
    by (simp only: list_all_iff)
  then show ?thesis
    using graded_eval graded_rows(1) unfolding cs by (simp add: N_CLUSTERS_def)
qed

text \<open>
  C4: wallet W1 borrows at timestamp 0 and deposits at timestamp 1000. Both records are valid
  as the specification defines validity (no field is missing or empty and the amount is a
  number), so W1 has one valid borrow and no valid repay, and its ratio is to be
  \<open>0 / 1 = 0.0\<close>. The code skips the borrow, since the timestamp 0 is false in its
  truthiness test, and gives W1 the ratio 1.0 of a wallet that never borrowed.
\<close>

theorem borrow_at_zero_ratio:
  "spec_action_count str2f borrow_at_zero ''W1'' ''borrow'' = 1
   \<and> spec_action_count str2f borrow_at_zero ''W1'' ''repay'' = 0
   \<and> fdiv (Fin 0) (Fin 1) = Inr (Fin 0)
   \<and> engineer_features str2f borrow_at_zero =
       Inr \<lparr>index_rows =
              [(''W1'',
                \<lparr>total_tx = 1, total_usd_all_actions = Fin 100, repay_borrow_ratio_count = Fin 1,
                 num_liquidations = 0, liquidation_ratio = Fin 0, active_days = Fin 0,
                 avg_time_between_tx_days = Fin 0\<rparr>)],
            cluster = None, credit_score = None\<rparr>"
  using borrow_at_zero_spec_counts[of str2f] borrow_at_zero_eval[of str2f] by simp

text \<open>
  C5, as stated, fails: \<open>total_usd_all_actions\<close> is a float sum taken in arrival order, and
  float addition is not associative. Three deposits of one wallet, of \<open>2 ^ 53\<close>, 1 and 1
  USD: with the large one first each later addition is rounded away and the total is
  \<open>2 ^ 53\<close>; with the large one last the total is \<open>2 ^ 53 + 2\<close>.
\<close>

theorem order_changes_usd_total:
  "mset big_first = mset big_last
   \<and> engineer_features no_strings big_first = Inr (deposits_frame (Fin 9007199254740992))
   \<and> engineer_features no_strings big_last = Inr (deposits_frame (Fin 9007199254740994))
   \<and> deposits_frame (Fin 9007199254740992) \<noteq> deposits_frame (Fin 9007199254740994)"
  using big_perm big_first_eval big_last_eval by (simp add: deposits_frame_def)

text \<open>
  C5, as amended: on a list and on any permutation of it the feature engineer raises the same
  exception or returns on both, and then both tables have the same wallets and every wallet
  has the same feature row but for \<open>total_usd_all_actions\<close>.
\<close>

theorem permutation_same_but_usd:
  assumes "mset raw = mset raw'"
  shows "(\<forall>e. engineer_features str2f raw = Inl e \<longleftrightarrow> engineer_features str2f raw' = Inl e)
       \<and> (\<forall>df df'. engineer_features str2f raw = Inr df \<longrightarrow>
            engineer_features str2f raw' = Inr df' \<longrightarrow>
            (\<forall>w. map_option drop_usd (map_of (index_rows df) w)
               = map_option drop_usd (map_of (index_rows df') w)))"
  using engineer_features_mset[OF assms, of str2f] engineer_features_mset[OF assms[symmetric], of str2f]
  by (auto simp: same_but_usd_def split: sum.splits)

theorem permutation_same_but_usd_witness:
  "mset big_first = mset big_last
   \<and> engineer_features no_strings big_first = Inr (deposits_frame (Fin 9007199254740992))
   \<and> engineer_features no_strings big_last = Inr (deposits_frame (Fin 9007199254740994))
   \<and> map_option drop_usd (map_of (index_rows (deposits_frame (Fin 9007199254740992))) ''W1'')
     = map_option drop_usd (map_of (index_rows (deposits_frame (Fin 9007199254740994))) ''W1'')"
  using permutation_same_but_usd[OF big_perm, of no_strings] big_perm big_first_eval big_last_eval
  by simp

text \<open>
  C6: a list whose only record lacks its timestamp. The record is dropped, no wallet gets an
  entry, and then \<^verbatim>\<open>set_index('wallet')\<close> raises \<^verbatim>\<open>KeyError\<close> on the frame without
  columns: the error reaches the caller.
\<close>

theorem only_invalid_record_raises:
  "scan str2f empty_acc [no_timestamp_record] = Inr empty_acc \<and>
   engineer_features str2f [no_timestamp_record] = Inl KeyError"
  by (simp add: no_timestamp_record_def engineer_features_def process_tx_def empty_acc_def Let_def)

text \<open>
  C7: for an empty record list the feature engineer returns the empty feature table, and on
  a table without rows the scorer returns its argument unchanged, whatever the clustering
  step would do (it is not called: the result does not depend on \<open>fit_predict\<close>).
\<close>

theorem empty_input:
  "engineer_features str2f [] = Inr empty_frame \<and>
   generate_credit_scores fit_predict (df\<lparr>index_rows := []\<rparr>) = Inr (df\<lparr>index_rows := []\<rparr>)"
  by (simp add: engineer_features_def generate_credit_scores_def)

text \<open>
  C8, as stated, fails: a negative amount gives a negative \<open>total_usd_all_actions\<close> and an
  infinite amount an infinite one. The replacement of infinities and NaNs is applied to the
  copy \<^verbatim>\<open>X\<close> only: there the infinite total is 0 and the negative one stays negative, and
  the feature table keeps both values.
\<close>

theorem negative_and_infinite_totals:
  "engineer_features no_strings signed_records =
     Inr \<lparr>index_rows =
            [(''W1'',
              \<lparr>total_tx = 1, total_usd_all_actions = Fin (- 1), repay_borrow_ratio_count = Fin 1,
               num_liquidations = 0, liquidation_ratio = Fin 0, active_days = Fin 0,
               avg_time_between_tx_days = Fin 0\<rparr>),
             (''W2'',
              \<lparr>total_tx = 1, total_usd_all_actions = PInf, repay_borrow_ratio_count = Fin 1,
               num_liquidations = 0, liquidation_ratio = Fin 0, active_days = Fin 0,
               avg_time_between_tx_days = Fin 0\<rparr>)],
          cluster = None, credit_score = None\<rparr>
   \<and> engineer_features no_strings signed_records = Inr signed_frame
   \<and> model_input signed_frame =
       [[Fin 1, Fin 0, Fin 0, Fin (- 1), Fin 0],
        [Fin 1, Fin 0, Fin 0, Fin 0, Fin 0]]"
  using signed_model_input by (simp add: signed_records_def signed_frame_def eval_defs)

text \<open>
  C8, as amended: for an input of fewer than \<open>2 ^ 53\<close> records, every wallet of the feature
  table has \<open>total_tx \<ge> 1\<close> and finite, non-negative \<open>repay_borrow_ratio_count\<close>,
  \<open>liquidation_ratio\<close>, \<open>active_days\<close> and \<open>avg_time_between_tx_days\<close> (\<open>num_liquidations\<close>
  is a count). Its \<open>total_usd_all_actions\<close> is the float sum, from 0.0 and in arrival order,
  of the USD values of the records that the code accepts for this wallet, a record with the
  action \<open>all_actions\<close> being added twice; so it is the float sum of these values when none
  of these records has the action \<open>all_actions\<close>, and it is not negative when none of these
  values is negative. The matrix handed to the clustering model has one row for each wallet
  of the table, with the wallet's five model columns, where a cell that is infinite or NaN
  is replaced by 0 and every other cell is unchanged; every cell of it is finite.
\<close>

theorem features_nonneg_finite:
  assumes "engineer_features str2f raw = Inr df" and "(w, f) \<in> set (index_rows df)"
    and "length raw < 2 ^ 53"
  shows "1 \<le> total_tx f
       \<and> nonneg_finite (repay_borrow_ratio_count f)
       \<and> nonneg_finite (liquidation_ratio f)
       \<and> nonneg_finite (active_days f)
       \<and> nonneg_finite (avg_time_between_tx_days f)
       \<and> total_usd_all_actions f = foldl fadd (Fin 0) (usd_terms (valid_records str2f raw) w)
       \<and> ((\<forall>(w', a, ts, v)\<in>set (valid_records str2f raw). w' = w \<longrightarrow> a \<noteq> ''all_actions'')
            \<longrightarrow> total_usd_all_actions f
                  = foldl fadd (Fin 0) (usd_values (valid_records str2f raw) w))
       \<and> ((\<forall>(w', a, ts, v)\<in>set (valid_records str2f raw). w' = w \<longrightarrow> fnonneg v)
            \<longrightarrow> fnonneg (total_usd_all_actions f))
       \<and> model_input df =
           map (\<lambda>(w, f). map (\<lambda>x. if is_finite x then x else Fin 0)
                            [repay_borrow_ratio_count f, liquidation_ratio f, active_days f,
                             total_usd_all_actions f, avg_time_between_tx_days f])
               (index_rows df)
       \<and> (\<forall>row\<in>set (model_input df). \<forall>x\<in>set row. is_finite x)"
proof -
  define vs where "vs = valid_records str2f raw"
  from engineer_features_row[OF assms(1,2)] obtain s where
    s: "map_of (wallet_stats (foldl add_record empty_acc vs)) w = Some s"
    and f: "wallet_features (wallet_timestamps (foldl add_record empty_acc vs)) w s = Inr f"
    unfolding vs_def by blast
  have len: "length vs < 2 ^ 53"
    using length_valid_records[of str2f raw] assms(3) by (simp add: vs_def)
  have key: "w \<in> fst ` set vs"
    using s keys_fold[of vs] by (metis map_of_eq_None_iff option.distinct(1) set_map)
  have tot: "counters s ''total_tx'' = tx_count vs w"
    by (rule counters_fold(1)[OF s])
  have small: "counters s (''num_'' @ a) < 2 ^ 53" for a
    using counters_fold(2)[OF s, of a] action_count_le[of vs w a] len by simp
  have c1: "1 \<le> total_tx f"
    using wallet_features_Inr(1)[OF f] tot tx_count_pos[OF key] by simp
  have c2: "nonneg_finite (repay_borrow_ratio_count f)"
    using wallet_features_Inr(4)[OF f] small[of "''repay''"]
    by (simp add: nonneg_finite_count_ratio) (simp add: nonneg_finite_def)
  have c3: "nonneg_finite (liquidation_ratio f)"
    using wallet_features_Inr(5)[OF f] small[of "''liquidationcall''"]
    by (simp add: nonneg_finite_count_ratio) (simp add: nonneg_finite_def)
  have c4: "nonneg_finite (active_days f)"
    using wallet_features_days[OF f] by (auto simp: nonneg_finite_def)
  have c5: "nonneg_finite (avg_time_between_tx_days f)"
    by (rule wallet_features_avg[OF f])
  have usd: "total_usd_all_actions f = foldl fadd (Fin 0) (usd_terms vs w)"
    using usd_total_fold[of vs w] s wallet_features_Inr(2)[OF f] by simp
  have c6: "total_usd_all_actions f = foldl fadd (Fin 0) (usd_values vs w)"
    if "\<forall>(w', a, ts, v)\<in>set vs. w' = w \<longrightarrow> a \<noteq> ''all_actions''"
    unfolding usd by (simp only: usd_terms_plain[OF that])
  have zero: "fnonneg (Fin 0)"
    by (simp add: fnonneg_def)
  have c7: "fnonneg (total_usd_all_actions f)"
    if "\<forall>(w', a, ts, v)\<in>set vs. w' = w \<longrightarrow> fnonneg v"
    unfolding usd by (rule foldl_fadd_fnonneg[OF zero usd_terms_fnonneg[OF that]])
  show ?thesis
    using c1 c2 c3 c4 c5 usd c6 c7 model_input_rows[of df] model_input_finite[of df]
    unfolding vs_def by blast
qed

theorem features_nonneg_finite_witness:
  "engineer_features no_strings scenario_records = Inr scenario_frame
   \<and> (''W1'', scenario_row) \<in> set (index_rows scenario_frame)
   \<and> length scenario_records < 2 ^ 53
   \<and> valid_records no_strings scenario_records
       = [(''W1'', ''borrow'', 1000, Fin 50), (''W1'', ''repay'', 2000, Fin 50)]
   \<and> list_all (\<lambda>(w', a, ts, v). w' = ''W1'' \<longrightarrow> a \<noteq> ''all_actions'')
       (valid_records no_strings scenario_records)
   \<and> list_all (\<lambda>(w', a, ts, v). w' = ''W1'' \<longrightarrow> fnonneg v)
       (valid_records no_strings scenario_records)
   \<and> 1 \<le> total_tx scenario_row
   \<and> nonneg_finite (repay_borrow_ratio_count scenario_row)
   \<and> nonneg_finite (liquidation_ratio scenario_row)
   \<and> nonneg_finite (active_days scenario_row)
   \<and> nonneg_finite (avg_time_between_tx_days scenario_row)
   \<and> total_usd_all_actions scenario_row = foldl fadd (Fin 0) [Fin 50, Fin 50]
   \<and> fnonneg (total_usd_all_actions scenario_row)
   \<and> model_input scenario_frame =
       [[Fin 1, Fin 0, Fin (3335999723978145 / 288230376151711744), Fin 100,
         Fin (3335999723978145 / 576460752303423488)]]
   \<and> list_all (list_all is_finite) (model_input scenario_frame)"
proof -
  have h1: "engineer_features no_strings scenario_records = Inr scenario_frame"
    by (rule scenario_eval)
  have h2: "(''W1'', scenario_row) \<in> set (index_rows scenario_frame)"
    by (simp add: scenario_frame_def)
  have h3: "length scenario_records < 2 ^ 53"
    by (simp add: scenario_records_def)
  have vs: "valid_records no_strings scenario_records
              = [(''W1'', ''borrow'', 1000, Fin 50), (''W1'', ''repay'', 2000, Fin 50)]"
    by (rule scenario_valid)
  have h4: "list_all (\<lambda>(w', a, ts, v). w' = ''W1'' \<longrightarrow> a \<noteq> ''all_actions'')
              (valid_records no_strings scenario_records)"
    unfolding vs by simp
  have h5: "list_all (\<lambda>(w', a, ts, v). w' = ''W1'' \<longrightarrow> fnonneg v)
              (valid_records no_strings scenario_records)"
    unfolding vs by (simp add: fnonneg_def)
  from features_nonneg_finite[OF h1 h2 h3] h4 h5
  have c: "1 \<le> total_tx scenario_row"
    "nonneg_finite (repay_borrow_ratio_count scenario_row)"
    "nonneg_finite (liquidation_ratio scenario_row)"
    "nonneg_finite (active_days scenario_row)"
    "nonneg_finite (avg_time_between_tx_days scenario_row)"
    "total_usd_all_actions scenario_row
       = foldl fadd (Fin 0) (usd_terms (valid_records no_strings scenario_records) ''W1'')"
    "total_usd_all_actions scenario_row
       = foldl fadd (Fin 0) (usd_values (valid_records no_strings scenario_records) ''W1'')"
    "fnonneg (total_usd_all_actions scenario_row)"
    "model_input scenario_frame =
       map (\<lambda>(w, f). map (\<lambda>x. if is_finite x then x else Fin 0)
                        [repay_borrow_ratio_count f, liquidation_ratio f, active_days f,
                         total_usd_all_actions f, avg_time_between_tx_days f])
           (index_rows scenario_frame)"
    "list_all (list_all is_finite) (model_input scenario_frame)"
    unfolding list_all_iff by blast+
  have m: "model_input scenario_frame =
       [[Fin 1, Fin 0, Fin (3335999723978145 / 288230376151711744), Fin 100,
         Fin (3335999723978145 / 576460752303423488)]]"
    unfolding c(9) by (simp add: scenario_frame_def scenario_row_def is_finite_def)
  show ?thesis
    using h1 h2 h3 vs h4 h5 c(1-5) c(6)[unfolded scenario_usd_terms] c(8) m c(10)
    by (intro conjI)
qed

text \<open>
  C9: in the table the scorer returns, two rows with the same cluster label have the same
  credit score.
\<close>

theorem same_cluster_same_score:
  assumes "generate_credit_scores fit_predict df = Inr out" and "index_rows df \<noteq> []"
  shows "\<exists>ls cs. cluster out = Some ls \<and> credit_score out = Some cs
           \<and> length ls = length (index_rows out) \<and> length cs = length (index_rows out)
           \<and> (\<forall>i<length ls. \<forall>j<length ls. ls ! i = ls ! j \<longrightarrow> cs ! i = cs ! j)"
proof -
  from scored_rows[OF assms] obtain ls sm cs where
    a: "fit_predict (model_input df) = Inr ls"
      "score_mapping (cluster_health_metric df ls) = Inr sm"
      "cluster out = Some ls" "credit_score out = Some cs"
      "index_rows out = index_rows df"
      "length ls = length (index_rows df)" "length cs = length ls"
      "\<forall>i<length ls. score_of_label sm (Fin 250) (ls ! i) = Inr (cs ! i)"
    by (elim exE conjE)
  have "cs ! i = cs ! j" if "i < length ls" "j < length ls" "ls ! i = ls ! j" for i j
  proof -
    have "Inr (cs ! i) = score_of_label sm (Fin 250) (ls ! i)"
      using a(8) that(1) by simp
    also have "\<dots> = score_of_label sm (Fin 250) (ls ! j)" by (simp only: that(3))
    also have "\<dots> = Inr (cs ! j)" using a(8) that(2) by simp
    finally show ?thesis by (simp only: sum.inject)
  qed
  then have eq: "\<forall>i<length ls. \<forall>j<length ls. ls ! i = ls ! j \<longrightarrow> cs ! i = cs ! j"
    by blast
  have len: "length ls = length (index_rows out)" "length cs = length (index_rows out)"
    using a(5,6,7) by simp_all
  show ?thesis
    using a(3,4) len eq by blast
qed

theorem same_cluster_same_score_witness:
  "generate_credit_scores shared_labels graded_frame =
     Inr (graded_frame\<lparr>cluster := Some [0, 0, 1, 2, 3],
                       credit_score := Some [250, 250, 0, 500, 750]\<rparr>)
   \<and> index_rows graded_frame \<noteq> []
   \<and> [0, 0, 1, 2, 3] ! 0 = [0, 0, 1, 2, 3 :: nat] ! 1
   \<and> [250, 250, 0, 500, 750] ! 0 = [250, 250, 0, 500, 750 :: int] ! 1"
proof -
  let ?out = "graded_frame\<lparr>cluster := Some [0, 0, 1, 2, 3],
                            credit_score := Some [250, 250, 0, 500, 750]\<rparr>"
  from same_cluster_same_score[OF graded_eval graded_rows(1)] obtain ls cs where
    a: "cluster ?out = Some ls" "credit_score ?out = Some cs"
    and b: "\<forall>i<length ls. \<forall>j<length ls. ls ! i = ls ! j \<longrightarrow> cs ! i = cs ! j"
    by blast
  have ls: "ls = [0, 0, 1, 2, 3]" and cs: "cs = [250, 250, 0, 500, 750]"
    using a by simp_all
  have "cs ! 0 = cs ! 1" using b[rule_format, of 0 1] by (simp add: ls)
  then show ?thesis using graded_eval graded_rows(1) by (simp add: cs)
qed

text \<open>
  C10: a record whose timestamp is the integer 0, or whose wallet or action is the empty
  string, is dropped: the loop body leaves both dictionaries as they are, the scan of a list
  with the record equals the scan of the list without it, and so does the feature table
  whenever other records remain.
\<close>

theorem falsy_record_dropped:
  assumes "timestamp t = Some 0 \<or> userWallet t = Some [] \<or> action t = Some []"
  shows "process_tx str2f st t = Inr st
       \<and> scan str2f st (xs @ t # ys) = scan str2f st (xs @ ys)
       \<and> (xs @ ys \<noteq> [] \<longrightarrow>
            engineer_features str2f (xs @ t # ys) = engineer_features str2f (xs @ ys))"
proof -
  have step: "process_tx str2f s t = Inr s" for s
    using assms by (rule process_tx_falsy)
  have sc: "scan str2f s (xs @ t # ys) = scan str2f s (xs @ ys)" for s
    by (cases "scan str2f s xs") (simp_all add: scan_append step)
  show ?thesis
    using step sc by (simp add: engineer_features_def)
qed

theorem falsy_record_dropped_witness:
  "timestamp (mk_tx ''W1'' ''deposit'' 0 100000000) = Some 0
   \<and> process_tx no_strings empty_acc (mk_tx ''W1'' ''deposit'' 0 100000000) = Inr empty_acc
   \<and> scan no_strings empty_acc
         ([mk_tx ''W1'' ''borrow'' 1000 50000000] @ mk_tx ''W1'' ''deposit'' 0 100000000 # [])
       = scan no_strings empty_acc ([mk_tx ''W1'' ''borrow'' 1000 50000000] @ [])
   \<and> engineer_features no_strings
         ([mk_tx ''W1'' ''borrow'' 1000 50000000] @ mk_tx ''W1'' ''deposit'' 0 100000000 # [])
       = engineer_features no_strings ([mk_tx ''W1'' ''borrow'' 1000 50000000] @ [])"
proof -
  have h: "timestamp (mk_tx ''W1'' ''deposit'' 0 100000000) = Some 0"
    by (simp add: mk_tx_def)
  show ?thesis
    using falsy_record_dropped[of "mk_tx ''W1'' ''deposit'' 0 100000000" no_strings empty_acc
        "[mk_tx ''W1'' ''borrow'' 1000 50000000]" "[]"] h
    by simp
qed

end
